theory Spec2Isabelle
  imports Main
begin

section \<open>Python strings\<close>

text \<open>
  A Python \<open>str\<close> is modelled as a \<open>string\<close> (a list of characters). The operations
  below are the ones the repair modules call: \<open>s.count(p)\<close>, \<open>p in s\<close>,
  \<open>s.split('\n')\<close>, \<open>'\n'.join(ls)\<close>, \<open>s.endswith(p)\<close> and \<open>str(n)\<close>.
\<close>

fun startswith :: "string \<Rightarrow> string \<Rightarrow> bool" where
  "startswith s [] = True"
| "startswith [] (p # ps) = False"
| "startswith (c # cs) (p # ps) = (c = p \<and> startswith cs ps)"

definition endswith :: "string \<Rightarrow> string \<Rightarrow> bool" where
  "endswith s p = startswith (rev s) (rev p)"

text \<open>\<open>p in s\<close>: the pattern occurs somewhere in the text.\<close>

fun contains :: "string \<Rightarrow> string \<Rightarrow> bool" where
  "contains [] p = (p = [])"
| "contains (c # cs) p = (if startswith (c # cs) p then True else contains cs p)"

text \<open>
  \<open>s.count(p)\<close> counts non-overlapping occurrences from the left: after a match the scan
  resumes behind it. The second argument of \<open>count_from\<close> is the number of characters
  that still belong to the last match.
\<close>

fun count_from :: "string \<Rightarrow> nat \<Rightarrow> string \<Rightarrow> nat" where
  "count_from p k [] = 0"
| "count_from p k (c # cs) =
     (if 0 < k then count_from p (k - 1) cs
      else if startswith (c # cs) p then Suc (count_from p (length p - 1) cs)
      else count_from p 0 cs)"

definition str_count :: "string \<Rightarrow> string \<Rightarrow> nat" where
  "str_count s p = count_from p 0 s"

abbreviation NL :: char where
  "NL \<equiv> CHR 0x0A"

abbreviation SQ :: char where
  "SQ \<equiv> CHR 0x27"

abbreviation DQ :: char where
  "DQ \<equiv> CHR 0x22"

fun split_nl :: "string \<Rightarrow> string list" where
  "split_nl [] = [[]]"
| "split_nl (c # cs) =
     (if c = NL then [] # split_nl cs
      else (case split_nl cs of [] \<Rightarrow> [[c]] | l # ls \<Rightarrow> (c # l) # ls))"

fun join_nl :: "string list \<Rightarrow> string" where
  "join_nl [] = []"
| "join_nl [l] = l"
| "join_nl (l # l' # ls) = l @ NL # join_nl (l' # ls)"

definition digit_char :: "nat \<Rightarrow> char" where
  "digit_char d = char_of (48 + d)"

fun str_nat_fuel :: "nat \<Rightarrow> nat \<Rightarrow> string" where
  "str_nat_fuel 0 n = [digit_char (n mod 10)]"
| "str_nat_fuel (Suc k) n =
     (if n < 10 then [digit_char n] else str_nat_fuel k (n div 10) @ [digit_char (n mod 10)])"

text \<open>\<open>str(n)\<close> of an integer; a number has at most as many digits as its value.\<close>

definition str_int :: "int \<Rightarrow> string" where
  "str_int i = (if i < 0 then CHR ''-'' # str_nat_fuel (nat (- i)) (nat (- i))
                else str_nat_fuel (nat i) (nat i))"

section \<open>The compiler and the module tree\<close>

text \<open>
  The repairers decide validity by calling Python's own \<open>compile(code, filename, 'exec')\<close>.
  The compiler is a parameter of the model: a function from the code and the file name to
  one of three outcomes. \<open>RaisesSyntaxError s n\<close> carries \<open>str(e)\<close> and \<open>e.lineno\<close>;
  \<open>RaisesOther s\<close> is any other exception (with \<open>str(e)\<close>).
\<close>

datatype compile_result =
    Compiled
  | RaisesSyntaxError string "int option"
  | RaisesOther string

type_synonym compiler = "string \<Rightarrow> string \<Rightarrow> compile_result"

text \<open>
  A module's entry file \<open>__init__.py\<close>: its text, and the exception that opening it for
  reading or for writing raises, if any.
\<close>

record pyfile =
  text_of :: string
  read_error :: "string option"
  write_error :: "string option"

text \<open>
  The directory \<open>APIS_DIR\<close>: the names \<open>iterdir()\<close> / \<open>os.listdir\<close> yields, in that order;
  for each name that is a directory holding an \<open>__init__.py\<close>, that file; and for each
  name whose directory cannot be searched, the exception that examining its entry file
  raises (a \<open>PermissionError\<close>).
\<close>

record tree =
  entries :: "string list"
  init_py :: "string \<rightharpoonup> pyfile"
  stat_error :: "string \<rightharpoonup> string"

definition read_file :: "tree \<Rightarrow> string \<Rightarrow> string + string" where
  "read_file t m =
     (case init_py t m of
        None \<Rightarrow> Inl ''No such file or directory''
      | Some f \<Rightarrow> (case read_error f of Some e \<Rightarrow> Inl e | None \<Rightarrow> Inr (text_of f)))"

definition write_file :: "tree \<Rightarrow> string \<Rightarrow> string \<Rightarrow> string + tree" where
  "write_file t m c =
     (case init_py t m of
        None \<Rightarrow> Inr (t\<lparr>init_py := (init_py t)(m \<mapsto> \<lparr>text_of = c, read_error = None, write_error = None\<rparr>)\<rparr>)
      | Some f \<Rightarrow>
          (case write_error f of
             Some e \<Rightarrow> Inl e
           | None \<Rightarrow> Inr (t\<lparr>init_py := (init_py t)(m \<mapsto> f\<lparr>text_of := c\<rparr>)\<rparr>)))"

text \<open>
  \<open>[d.name for d in APIS_DIR.iterdir() if d.is_dir() and (d / "__init__.py").exists()]\<close>:
  the names that are directories holding an entry file, in the order of the listing.
  \<open>Path.exists\<close> is called outside any \<open>try\<close> and re-raises a permission error, so the
  first directory that cannot be searched ends the comprehension with that exception
  (\<open>Inl\<close>).
\<close>

fun list_modules_from :: "tree \<Rightarrow> string list \<Rightarrow> string + string list" where
  "list_modules_from t [] = Inr []"
| "list_modules_from t (d # ds) =
     (case stat_error t d of
        Some e \<Rightarrow> Inl e
      | None \<Rightarrow>
          (case list_modules_from t ds of
             Inl e \<Rightarrow> Inl e
           | Inr ms \<Rightarrow> Inr (if init_py t d \<noteq> None then d # ms else ms)))"

definition list_modules :: "tree \<Rightarrow> string + string list" where
  "list_modules t = list_modules_from t (entries t)"


text \<open>The dictionary a single-module repair returns.\<close>

record fix_result =
  module :: string
  status :: string
  message :: string
  fixes_applied :: "string list option"

text \<open>The report of a batch operation.\<close>

record fix_response =
  results :: "fix_result list"
  total_modules :: nat
  fixed_modules :: nat
  modules_without_issues :: nat
  modules_with_errors :: nat

text \<open>
  \<open>re.search(r'line (\d+)', s)\<close> followed by \<open>int(match.group(1))\<close>: the first place where
  \<open>line\<close>, a blank and at least one digit occur, and the number its digits spell.
\<close>

definition is_digit :: "char \<Rightarrow> bool" where
  "is_digit c = (48 \<le> (of_char c :: nat) \<and> (of_char c :: nat) \<le> 57)"

definition digits_value :: "string \<Rightarrow> int" where
  "digits_value ds = foldl (\<lambda>a c. 10 * a + (int (of_char c) - 48)) 0 ds"

fun search_line :: "string \<Rightarrow> int option" where
  "search_line [] = None"
| "search_line (c # cs) =
     (if startswith (c # cs) ''line '' \<and> takeWhile is_digit (drop 5 (c # cs)) \<noteq> []
      then Some (digits_value (takeWhile is_digit (drop 5 (c # cs))))
      else search_line cs)"

section \<open>\<open>api_consistency\<close>: the syntax repairer\<close>

text \<open>
  \<open>is_syntax_valid\<close> of \<open>api_consistency\<close> catches every exception of the compiler and
  answers \<open>False\<close>.
\<close>

definition is_syntax_valid :: "compiler \<Rightarrow> string \<Rightarrow> bool" where
  "is_syntax_valid cmp code = (cmp code ''<string>'' = Compiled)"

record issue =
  issue_type :: string
  issue_line :: int
  description :: string

text \<open>
  \<open>detect_issues\<close> catches \<open>SyntaxError\<close> only: any other exception of the compiler
  leaves the function (\<open>Inl\<close>).
\<close>

definition detect_issues :: "compiler \<Rightarrow> string \<Rightarrow> string + issue list" where
  "detect_issues cmp code =
     (case cmp code ''<string>'' of
        Compiled \<Rightarrow> Inr []
      | RaisesOther e \<Rightarrow> Inl e
      | RaisesSyntaxError e ln \<Rightarrow>
          Inr [\<lparr>issue_type = (if contains e ''unterminated string literal''
                               then ''unterminated_string'' else ''syntax_error''),
                issue_line = (case search_line e of Some n \<Rightarrow> n | None \<Rightarrow> 0),
                description = e\<rparr>])"

text \<open>The line-local quote heuristic of \<open>api_consistency.fix_unterminated_string\<close>.\<close>

definition fix_unterminated_string :: "compiler \<Rightarrow> string \<Rightarrow> int \<Rightarrow> string" where
  "fix_unterminated_string cmp code line_number =
     (let lines = split_nl code in
      if line_number \<le> 0 \<or> line_number > int (length lines) then code
      else
        let i = nat (line_number - 1);
            line = lines ! i;
            single_quotes = str_count line [SQ];
            double_quotes = str_count line [DQ];
            triple_single = str_count line [SQ, SQ, SQ];
            triple_double = str_count line [DQ, DQ, DQ]
        in
        if single_quotes mod 2 = 1 \<and> double_quotes mod 2 = 0
          then join_nl (lines[i := line @ [SQ]])
        else if double_quotes mod 2 = 1 \<and> single_quotes mod 2 = 0
          then join_nl (lines[i := line @ [DQ]])
        else if triple_single mod 2 = 1
          then join_nl (lines[i := line @ [SQ, SQ, SQ]])
        else if triple_double mod 2 = 1
          then join_nl (lines[i := line @ [DQ, DQ, DQ]])
        else if is_syntax_valid cmp (join_nl (lines[i := line @ [SQ]]))
          then join_nl (lines[i := line @ [SQ]])
        else if is_syntax_valid cmp (join_nl (lines[i := line @ [DQ]]))
          then join_nl (lines[i := line @ [DQ]])
        else if is_syntax_valid cmp (code @ [SQ]) then code @ [SQ]
        else if is_syntax_valid cmp (code @ [DQ]) then code @ [DQ]
        else join_nl lines)"

text \<open>The body of \<open>for issue in issues\<close>: the content and the list of fix messages.\<close>

fun apply_issues :: "compiler \<Rightarrow> string \<Rightarrow> string list \<Rightarrow> issue list \<Rightarrow> string \<times> string list" where
  "apply_issues cmp content fx [] = (content, fx)"
| "apply_issues cmp content fx (i # is) =
     (if issue_type i = ''unterminated_string'' then
        (let fixed_content = fix_unterminated_string cmp content (issue_line i) in
         if fixed_content \<noteq> content
         then apply_issues cmp fixed_content
                (fx @ [''Fixed unterminated string at line '' @ str_int (issue_line i)]) is
         else apply_issues cmp content
                (fx @ [''Couldn'' @ SQ # ''t fix unterminated string at line '' @ str_int (issue_line i)]) is)
      else apply_issues cmp content (fx @ [''Couldn'' @ SQ # ''t fix syntax error: '' @ description i]) is)"

text \<open>
  \<open>for i in range(max_iterations)\<close>: the first argument counts the iterations left.
  \<open>Inl\<close> is an exception that leaves the loop.
\<close>

fun syntax_loop :: "compiler \<Rightarrow> nat \<Rightarrow> string \<Rightarrow> string list \<Rightarrow> string + (string \<times> string list)" where
  "syntax_loop cmp 0 content fx = Inr (content, fx)"
| "syntax_loop cmp (Suc k) content fx =
     (if is_syntax_valid cmp content then Inr (content, fx)
      else (case detect_issues cmp content of
              Inl e \<Rightarrow> Inl e
            | Inr issues \<Rightarrow>
                if issues = [] then Inr (content, fx)
                else (case apply_issues cmp content fx issues of
                        (content', fx') \<Rightarrow>
                          if is_syntax_valid cmp content' then Inr (content', fx')
                          else syntax_loop cmp k content' fx')))"

definition error_result :: "string \<Rightarrow> string \<Rightarrow> fix_result" where
  "error_result m e =
     \<lparr>module = m, status = ''error'', message = ''Error fixing module: '' @ e, fixes_applied = None\<rparr>"

text \<open>
  \<open>fix_module_syntax\<close>: the returned dictionary and the tree afterwards. The traceback
  text under \<open>error_details\<close> is left out.
\<close>

definition fix_module_syntax :: "compiler \<Rightarrow> tree \<Rightarrow> string \<Rightarrow> fix_result \<times> tree" where
  "fix_module_syntax cmp t module_name =
     (if init_py t module_name = None
      then (\<lparr>module = module_name, status = ''error'', message = ''Module not found'',
             fixes_applied = None\<rparr>, t)
      else
        (case read_file t module_name of
           Inl e \<Rightarrow> (error_result module_name e, t)
         | Inr original_content \<Rightarrow>
             (case syntax_loop cmp 10 original_content [] of
                Inl e \<Rightarrow> (error_result module_name e, t)
              | Inr (content, fx) \<Rightarrow>
                  if is_syntax_valid cmp content then
                    (if content \<noteq> original_content then
                       (case write_file t module_name content of
                          Inl e \<Rightarrow> (error_result module_name e, t)
                        | Inr t' \<Rightarrow>
                            (\<lparr>module = module_name, status = ''fixed'',
                              message = ''Fixed '' @ str_int (int (length fx)) @ '' issues'',
                              fixes_applied = Some fx\<rparr>, t'))
                     else
                       (\<lparr>module = module_name, status = ''no_issues'',
                         message = ''No syntax issues found'', fixes_applied = None\<rparr>, t))
                  else
                    (\<lparr>module = module_name, status = ''unfixable'',
                      message = ''Could not fix all syntax issues automatically'',
                      fixes_applied = Some fx\<rparr>, t))))"

definition skip_list :: "string list" where
  "skip_list = [''api_consistency'', ''string_fixer'', ''enhanced_string_fixer'', ''api_fixer'']"

text \<open>
  The loop of \<open>fix_all_modules_syntax\<close> over the module names: the results so far, the
  three counters and the tree are threaded through.
\<close>

fun fix_all_loop ::
  "compiler \<Rightarrow> string list \<Rightarrow> fix_result list \<times> nat \<times> nat \<times> nat \<Rightarrow> tree
     \<Rightarrow> (fix_result list \<times> nat \<times> nat \<times> nat) \<times> tree" where
  "fix_all_loop cmp [] acc t = (acc, t)"
| "fix_all_loop cmp (m # ms) (rs, fixed_count, no_issues_count, error_count) t =
     (if m \<in> set skip_list then fix_all_loop cmp ms (rs, fixed_count, no_issues_count, error_count) t
      else
        (case fix_module_syntax cmp t m of
           (result, t') \<Rightarrow>
             if status result = ''fixed''
               then fix_all_loop cmp ms (rs @ [result], fixed_count + 1, no_issues_count, error_count) t'
             else if status result = ''no_issues''
               then fix_all_loop cmp ms (rs @ [result], fixed_count, no_issues_count + 1, error_count) t'
             else fix_all_loop cmp ms (rs @ [result], fixed_count, no_issues_count, error_count + 1) t'))"

text \<open>
  \<open>fix_all_modules_syntax\<close>: the exception the listing raises (\<open>Inl\<close>) or the report, and
  the tree afterwards.
\<close>

definition fix_all_modules_syntax :: "compiler \<Rightarrow> tree \<Rightarrow> (string + fix_response) \<times> tree" where
  "fix_all_modules_syntax cmp t =
     (case list_modules t of
        Inl e \<Rightarrow> (Inl e, t)
      | Inr modules \<Rightarrow>
          (case fix_all_loop cmp modules ([], 0, 0, 0) t of
             ((rs, fixed_count, no_issues_count, error_count), t') \<Rightarrow>
               (Inr \<lparr>results = rs, total_modules = length modules, fixed_modules = fixed_count,
                     modules_without_issues = no_issues_count,
                     modules_with_errors = error_count\<rparr>, t')))"

section \<open>\<open>string_fixer\<close>: the string-literal repairer\<close>

text \<open>
  \<open>is_syntax_valid\<close> of \<open>string_fixer\<close> catches \<open>SyntaxError\<close> only; another exception
  leaves the function.
\<close>

definition sf_is_syntax_valid :: "compiler \<Rightarrow> string \<Rightarrow> string + bool" where
  "sf_is_syntax_valid cmp code =
     (case cmp code ''<string>'' of
        Compiled \<Rightarrow> Inr True
      | RaisesSyntaxError e ln \<Rightarrow> Inr False
      | RaisesOther e \<Rightarrow> Inl e)"

definition detect_unterminated_string :: "compiler \<Rightarrow> string \<Rightarrow> string + (int \<times> string) option" where
  "detect_unterminated_string cmp code =
     (case cmp code ''<string>'' of
        Compiled \<Rightarrow> Inr None
      | RaisesOther e \<Rightarrow> Inl e
      | RaisesSyntaxError e ln \<Rightarrow>
          if contains e ''unterminated string literal''
          then (case search_line e of Some n \<Rightarrow> Inr (Some (n, e)) | None \<Rightarrow> Inr None)
          else Inr None)"

definition sf_fix_unterminated_string :: "string \<Rightarrow> int \<Rightarrow> string" where
  "sf_fix_unterminated_string content line_number =
     (let lines = split_nl content in
      if line_number \<le> 0 \<or> line_number > int (length lines) then content
      else
        let i = nat (line_number - 1);
            line = lines ! i;
            single_quotes = str_count line [SQ];
            double_quotes = str_count line [DQ]
        in
        if single_quotes mod 2 = 1 \<and> double_quotes mod 2 = 0
          then join_nl (lines[i := line @ [SQ]])
        else if double_quotes mod 2 = 1 \<and> single_quotes mod 2 = 0
          then join_nl (lines[i := line @ [DQ]])
        else join_nl lines)"

text \<open>
  \<open>for i in range(max_iterations)\<close> of \<open>fix_module_string_literals\<close>; the first argument
  counts the iterations left, \<open>Inl\<close> is an exception that leaves the loop.
\<close>

fun string_loop :: "compiler \<Rightarrow> nat \<Rightarrow> string \<Rightarrow> string list \<Rightarrow> string + (string \<times> string list)" where
  "string_loop cmp 0 content fx = Inr (content, fx)"
| "string_loop cmp (Suc k) content fx =
     (case sf_is_syntax_valid cmp content of
        Inl e \<Rightarrow> Inl e
      | Inr valid \<Rightarrow>
          if valid then Inr (content, fx)
          else
            (case detect_unterminated_string cmp content of
               Inl e \<Rightarrow> Inl e
             | Inr None \<Rightarrow> Inr (content, fx)
             | Inr (Some (line_number, error_msg)) \<Rightarrow>
                 (let fixed_content = sf_fix_unterminated_string content line_number in
                  if fixed_content \<noteq> content
                  then string_loop cmp k fixed_content
                         (fx @ [''Fixed unterminated string at line '' @ str_int line_number])
                  else if line_number \<le> int (length (split_nl content)) then
                    (case sf_is_syntax_valid cmp (content @ [SQ]) of
                       Inl e \<Rightarrow> Inl e
                     | Inr single_ok \<Rightarrow>
                         if single_ok
                         then string_loop cmp k (content @ [SQ])
                                (fx @ [''Added single quote at end of file''])
                         else
                           (case sf_is_syntax_valid cmp (content @ [DQ]) of
                              Inl e \<Rightarrow> Inl e
                            | Inr double_ok \<Rightarrow>
                                if double_ok
                                then string_loop cmp k (content @ [DQ])
                                       (fx @ [''Added double quote at end of file''])
                                else Inr (content,
                                       fx @ [''Couldn'' @ SQ # ''t fix line '' @ str_int line_number])))
                  else string_loop cmp k content fx)))"

definition fix_module_string_literals :: "compiler \<Rightarrow> tree \<Rightarrow> string \<Rightarrow> fix_result \<times> tree" where
  "fix_module_string_literals cmp t module_name =
     (if init_py t module_name = None
      then (\<lparr>module = module_name, status = ''error'', message = ''Module not found'',
             fixes_applied = None\<rparr>, t)
      else
        (case read_file t module_name of
           Inl e \<Rightarrow> (error_result module_name e, t)
         | Inr original_content \<Rightarrow>
             (case string_loop cmp 5 original_content [] of
                Inl e \<Rightarrow> (error_result module_name e, t)
              | Inr (content, fx) \<Rightarrow>
                  (case sf_is_syntax_valid cmp content of
                     Inl e \<Rightarrow> (error_result module_name e, t)
                   | Inr valid \<Rightarrow>
                       if valid then
                         (if content \<noteq> original_content then
                            (case write_file t module_name content of
                               Inl e \<Rightarrow> (error_result module_name e, t)
                             | Inr t' \<Rightarrow>
                                 (\<lparr>module = module_name, status = ''fixed'',
                                   message = ''Fixed '' @ str_int (int (length fx)) @ '' string literals'',
                                   fixes_applied = Some fx\<rparr>, t'))
                          else
                            (\<lparr>module = module_name, status = ''no_issues'',
                              message = ''No string literal issues found'', fixes_applied = None\<rparr>, t))
                       else
                         (\<lparr>module = module_name, status = ''unfixable'',
                           message = ''Could not fix all string literals automatically'',
                           fixes_applied = Some fx\<rparr>, t)))))"

fun sf_fix_all_loop ::
  "compiler \<Rightarrow> string list \<Rightarrow> fix_result list \<times> nat \<times> nat \<times> nat \<Rightarrow> tree
     \<Rightarrow> (fix_result list \<times> nat \<times> nat \<times> nat) \<times> tree" where
  "sf_fix_all_loop cmp [] acc t = (acc, t)"
| "sf_fix_all_loop cmp (m # ms) (rs, fixed_count, no_issues_count, error_count) t =
     (if m = ''string_fixer''
      then sf_fix_all_loop cmp ms (rs, fixed_count, no_issues_count, error_count) t
      else
        (case fix_module_string_literals cmp t m of
           (result, t') \<Rightarrow>
             if status result = ''fixed''
               then sf_fix_all_loop cmp ms (rs @ [result], fixed_count + 1, no_issues_count, error_count) t'
             else if status result = ''no_issues''
               then sf_fix_all_loop cmp ms (rs @ [result], fixed_count, no_issues_count + 1, error_count) t'
             else sf_fix_all_loop cmp ms (rs @ [result], fixed_count, no_issues_count, error_count + 1) t'))"

definition sf_fix_all_modules :: "compiler \<Rightarrow> tree \<Rightarrow> (string + fix_response) \<times> tree" where
  "sf_fix_all_modules cmp t =
     (case list_modules t of
        Inl e \<Rightarrow> (Inl e, t)
      | Inr modules \<Rightarrow>
          (case sf_fix_all_loop cmp modules ([], 0, 0, 0) t of
             ((rs, fixed_count, no_issues_count, error_count), t') \<Rightarrow>
               (Inr \<lparr>results = rs, total_modules = length modules, fixed_modules = fixed_count,
                     modules_without_issues = no_issues_count,
                     modules_with_errors = error_count\<rparr>, t')))"

section \<open>\<open>module_checker\<close>: the import check\<close>

text \<open>
  \<open>importlib.import_module\<close> is a parameter: for a module name, the exception the import
  raises (\<open>Inl\<close>) or whether the imported module has an attribute \<open>router\<close>.
\<close>

type_synonym importer = "string \<Rightarrow> string + bool"

record module_status =
  ms_module :: string
  ms_status :: string
  ms_message :: string
  has_router :: bool

definition check_module :: "importer \<Rightarrow> tree \<Rightarrow> string \<Rightarrow> module_status" where
  "check_module imp t module_name =
     (if init_py t module_name = None
      then \<lparr>ms_module = module_name, ms_status = ''error'', ms_message = ''Module not found'',
            has_router = False\<rparr>
      else
        (case imp module_name of
           Inr hr \<Rightarrow>
             \<lparr>ms_module = module_name, ms_status = ''valid'',
              ms_message = ''Module imports successfully''
                 @ (if hr then '', has router'' else '', no router''),
              has_router = hr\<rparr>
         | Inl e \<Rightarrow>
             \<lparr>ms_module = module_name, ms_status = ''invalid'',
              ms_message = ''Import failed: '' @ e, has_router = False\<rparr>))"

record check_response =
  modules :: "module_status list"
  total :: nat
  valid :: nat
  invalid :: nat

fun check_all_loop ::
  "importer \<Rightarrow> tree \<Rightarrow> string list \<Rightarrow> module_status list \<times> nat \<times> nat
     \<Rightarrow> module_status list \<times> nat \<times> nat" where
  "check_all_loop imp t [] acc = acc"
| "check_all_loop imp t (m # ms) (rs, valid_count, invalid_count) =
     (if m = ''module_checker'' then check_all_loop imp t ms (rs, valid_count, invalid_count)
      else
        (let result = check_module imp t m in
         if ms_status result = ''valid''
         then check_all_loop imp t ms (rs @ [result], valid_count + 1, invalid_count)
         else check_all_loop imp t ms (rs @ [result], valid_count, invalid_count + 1)))"

definition check_all_modules :: "importer \<Rightarrow> tree \<Rightarrow> string + check_response" where
  "check_all_modules imp t =
     (case list_modules t of
        Inl e \<Rightarrow> Inl e
      | Inr ms \<Rightarrow>
          (case check_all_loop imp t ms ([], 0, 0) of
             (rs, valid_count, invalid_count) \<Rightarrow>
               Inr \<lparr>modules = rs, total = length ms, valid = valid_count,
                     invalid = invalid_count\<rparr>))"

section \<open>\<open>fix_module\<close>: the one-shot string-literal fixer\<close>

text \<open>
  The dictionaries \<open>fix_string_literals\<close> returns have varying keys: \<open>{"error": ...}\<close>
  alone, or \<open>module\<close>, \<open>status\<close>, \<open>message\<close> with \<open>fixes\<close> and \<open>remaining_error\<close> on
  some paths. A key that is absent is \<open>None\<close>.
\<close>

record fm_result =
  fm_error :: "string option"
  fm_module :: "string option"
  fm_status :: "string option"
  fm_message :: "string option"
  fm_fixes :: "string list option"
  remaining_error :: "string option"




text \<open>
  The quote counting and the \<open>if\<close>/\<open>elif\<close> chain of \<open>fix_string_literals\<close> on the line the
  compiler blamed: the new list of lines and the fix messages. \<open>lines.insert(error_line, q)\<close>
  puts a new line behind the blamed one.
\<close>

definition fm_fix_line :: "string list \<Rightarrow> int \<Rightarrow> string list \<times> string list" where
  "fm_fix_line lines error_line =
     (let i = nat (error_line - 1);
          line = lines ! i;
          triple_single = int (str_count line [SQ, SQ, SQ]);
          triple_double = int (str_count line [DQ, DQ, DQ]);
          single_quotes = int (str_count line [SQ]) - triple_single * 3;
          double_quotes = int (str_count line [DQ]) - triple_double * 3
      in
      if single_quotes mod 2 = 1
        then (lines[i := line @ [SQ]], [''Fixed single quote at line '' @ str_int error_line])
      else if double_quotes mod 2 = 1
        then (lines[i := line @ [DQ]], [''Fixed double quote at line '' @ str_int error_line])
      else if triple_single mod 2 = 1 then
        (if endswith line [SQ, SQ] \<or> endswith line [SQ]
         then (lines[i := line @ replicate (3 - (if endswith line [SQ] then 1 else 2)) SQ],
               [''Fixed triple single quote at line '' @ str_int error_line])
         else ((take (nat error_line) lines @ [[SQ, SQ, SQ]] @ drop (nat error_line) lines)[i := line],
               [''Added closing triple single quote after line '' @ str_int error_line]))
      else if triple_double mod 2 = 1 then
        (if endswith line [DQ, DQ] \<or> endswith line [DQ]
         then (lines[i := line @ replicate (3 - (if endswith line [DQ] then 1 else 2)) DQ],
               [''Fixed triple double quote at line '' @ str_int error_line])
         else ((take (nat error_line) lines @ [[DQ, DQ, DQ]] @ drop (nat error_line) lines)[i := line],
               [''Added closing triple double quote after line '' @ str_int error_line]))
      else if str_count line [SQ] > str_count line [DQ]
        then (lines[i := line @ [SQ]],
              [''Fixed single quote at line '' @ str_int error_line @ '' (best guess)''])
      else (lines[i := line @ [DQ]],
            [''Fixed double quote at line '' @ str_int error_line @ '' (best guess)'']))"




record fm_response =
  total_processed :: nat
  fixed :: nat
  unfixable :: nat
  errors :: nat
  fm_results :: "fm_result list"


section \<open>The quote-balance analysis\<close>

datatype quote_kind = Single | Double | TripleSingle | TripleDouble

fun quote_str :: "quote_kind \<Rightarrow> string" where
  "quote_str Single = [SQ]"
| "quote_str Double = [DQ]"
| "quote_str TripleSingle = [SQ, SQ, SQ]"
| "quote_str TripleDouble = [DQ, DQ, DQ]"

text \<open>
  The analysis as the specification words it: the triple counts are subtracted three
  times from the single-character counts, and the kind is chosen by the priority
  triple-double, triple-single, double, single, the last two only when the other count
  is even.
\<close>

definition spec_analyze_line :: "string \<Rightarrow> quote_kind option" where
  "spec_analyze_line line =
     (let triple_single = int (str_count line [SQ, SQ, SQ]);
          triple_double = int (str_count line [DQ, DQ, DQ]);
          single_quotes = int (str_count line [SQ]) - triple_single * 3;
          double_quotes = int (str_count line [DQ]) - triple_double * 3
      in
      if triple_double mod 2 = 1 then Some TripleDouble
      else if triple_single mod 2 = 1 then Some TripleSingle
      else if double_quotes mod 2 = 1 \<and> single_quotes mod 2 = 0 then Some Double
      else if single_quotes mod 2 = 1 \<and> double_quotes mod 2 = 0 then Some Single
      else None)"

text \<open>
  The choice \<open>api_consistency.fix_unterminated_string\<close> makes before it falls back to
  trying quotes against the compiler: the plain counts, single before double before the
  triple kinds.
\<close>

definition selected_kind :: "string \<Rightarrow> quote_kind option" where
  "selected_kind line =
     (let single_quotes = str_count line [SQ];
          double_quotes = str_count line [DQ];
          triple_single = str_count line [SQ, SQ, SQ];
          triple_double = str_count line [DQ, DQ, DQ]
      in
      if single_quotes mod 2 = 1 \<and> double_quotes mod 2 = 0 then Some Single
      else if double_quotes mod 2 = 1 \<and> single_quotes mod 2 = 0 then Some Double
      else if triple_single mod 2 = 1 then Some TripleSingle
      else if triple_double mod 2 = 1 then Some TripleDouble
      else None)"

text \<open>
  The choice \<open>fix_module.fix_string_literals\<close> makes before its best guess: the counts
  less three times the triple counts, single before double before the triple kinds, with
  no test of the other kind.
\<close>

definition fm_selected_kind :: "string \<Rightarrow> quote_kind option" where
  "fm_selected_kind line =
     (let triple_single = int (str_count line [SQ, SQ, SQ]);
          triple_double = int (str_count line [DQ, DQ, DQ]);
          single_quotes = int (str_count line [SQ]) - triple_single * 3;
          double_quotes = int (str_count line [DQ]) - triple_double * 3
      in
      if single_quotes mod 2 = 1 then Some Single
      else if double_quotes mod 2 = 1 then Some Double
      else if triple_single mod 2 = 1 then Some TripleSingle
      else if triple_double mod 2 = 1 then Some TripleDouble
      else None)"

section \<open>\<open>api_fixer\<close>: router definitions and operation ids\<close>

text \<open>
  The regular expressions of \<open>api_fixer\<close> are modelled by scanners over the text. \<open>\s\<close>
  and \<open>str.strip()\<close> use the same class of white space: among the characters below 256
  the code points 9 to 13, 28 to 32, 133 and 160.
\<close>

definition is_space :: "char \<Rightarrow> bool" where
  "is_space c =
     (let n = (of_char c :: nat) in (9 \<le> n \<and> n \<le> 13) \<or> (28 \<le> n \<and> n \<le> 32) \<or> n = 133 \<or> n = 160)"



text \<open>\<open>not content.strip()\<close>: the text has white space only.\<close>

definition is_blank :: "string \<Rightarrow> bool" where
  "is_blank content = list_all is_space content"

text \<open>
  \<open>re.search(r'router\s*=\s*APIRouter\(', content)\<close>: \<open>router_def_at\<close> is a match that
  starts with the text; neither \<open>=\<close> nor \<open>A\<close> is white space, so each \<open>\s*\<close> takes all the
  white space there is.
\<close>

definition router_def_at :: "string \<Rightarrow> bool" where
  "router_def_at cs =
     (startswith cs ''router'' \<and>
      (let r = dropWhile is_space (drop 6 cs) in
       startswith r ''='' \<and> startswith (dropWhile is_space (drop 1 r)) ''APIRouter(''))"

fun has_router_def :: "string \<Rightarrow> bool" where
  "has_router_def [] = False"
| "has_router_def (c # cs) = (router_def_at (c # cs) \<or> has_router_def cs)"

text \<open>
  \<open>list(re.finditer(r'((?:import|from).*?(?:\n|$))', content))[-1].end()\<close>: a match starts
  at \<open>import\<close> or \<open>from\<close> and runs to the end of the line, the line break included; the
  search resumes behind it. The scanner keeps whether it is inside a match, the position,
  and the end of the last match so far; \<open>None\<close> is an empty list of matches.
\<close>

fun import_scan :: "bool \<Rightarrow> nat \<Rightarrow> nat option \<Rightarrow> string \<Rightarrow> nat option" where
  "import_scan inside p prev [] = (if inside then Some p else prev)"
| "import_scan inside p prev (c # cs) =
     (if inside then
        (if c = NL then import_scan False (Suc p) (Some (Suc p)) cs
         else import_scan True (Suc p) prev cs)
      else if startswith (c # cs) ''import'' \<or> startswith (c # cs) ''from''
        then import_scan True (Suc p) prev cs
      else import_scan False (Suc p) prev cs)"

definition last_import_end :: "string \<Rightarrow> nat option" where
  "last_import_end content = import_scan False 0 None content"

text \<open>
  \<open>re.sub(r'from fastapi import ([^\n]*)', r'from fastapi import \1, APIRouter', content)\<close>:
  every line is copied, and \<open>, APIRouter\<close> put at the end of each line that holds
  \<open>from fastapi import\<close> followed by a blank. The flag says whether the scanner is inside
  a match.
\<close>

fun sub_scan :: "bool \<Rightarrow> string \<Rightarrow> string" where
  "sub_scan inside [] = (if inside then '', APIRouter'' else [])"
| "sub_scan inside (c # cs) =
     (if inside then
        (if c = NL then '', APIRouter'' @ NL # sub_scan False cs
         else c # sub_scan True cs)
      else if startswith (c # cs) ''from fastapi import '' then c # sub_scan True cs
      else c # sub_scan False cs)"

definition sub_fastapi_import :: "string \<Rightarrow> string" where
  "sub_fastapi_import content = sub_scan False content"

text \<open>\<open>content[:insert_pos] + ins + content[insert_pos:]\<close>.\<close>

definition insert_at :: "nat \<Rightarrow> string \<Rightarrow> string \<Rightarrow> string" where
  "insert_at insert_pos ins content = take insert_pos content @ ins @ drop insert_pos content"

text \<open>\<open>fix_router_definition\<close>, the repair \<open>fix_api_file\<close> applies first.\<close>

definition fix_router_definition :: "string \<Rightarrow> string" where
  "fix_router_definition content =
     (if \<not> contains content ''router ='' \<and> contains content ''@router.'' then
        (case last_import_end content of
           Some insert_pos \<Rightarrow>
             insert_at insert_pos
               ([NL, NL] @ ''from fastapi import APIRouter'' @ [NL, NL] @ ''router = APIRouter()'' @ [NL])
               content
         | None \<Rightarrow> content)
      else content)"

text \<open>
  The dictionary \<open>APIRouterFixer.fix_module_router\<close> returns: \<open>module\<close>, \<open>status\<close> and
  \<open>message\<close> for a missing or blank file, and \<open>module\<close>, \<open>had_router_import\<close>,
  \<open>had_router_definition\<close>, \<open>fixed\<close> and \<open>message\<close> otherwise. A key that is absent is
  \<open>None\<close>.
\<close>

record router_result =
  rr_module :: string
  rr_status :: "string option"
  had_router_import :: "bool option"
  had_router_definition :: "bool option"
  rr_fixed :: "bool option"
  rr_message :: string

definition router_error :: "string \<Rightarrow> string \<Rightarrow> router_result" where
  "router_error module_name msg =
     \<lparr>rr_module = module_name, rr_status = Some ''error'', had_router_import = None,
      had_router_definition = None, rr_fixed = None, rr_message = msg\<rparr>"

definition router_exception :: "string \<Rightarrow> string \<Rightarrow> router_result" where
  "router_exception module_name e =
     \<lparr>rr_module = module_name, rr_status = None, had_router_import = Some False,
      had_router_definition = Some False, rr_fixed = Some False, rr_message = ''Error: '' @ e\<rparr>"

text \<open>\<open>", ".join(fixes_applied)\<close>.\<close>

fun join_comma :: "string list \<Rightarrow> string" where
  "join_comma [] = []"
| "join_comma [l] = l"
| "join_comma (l # l' # ls) = l @ '', '' @ join_comma (l' # ls)"

definition router_def_text :: string where
  "router_def_text = [NL, NL] @ ''# Create API router'' @ [NL] @ ''router = APIRouter()'' @ [NL, NL]"

text \<open>
  Fix 1 of \<open>fix_module_router\<close>, applied when \<open>APIRouter\<close> does not occur in the text: the
  new text and the fix message.
\<close>

definition add_router_import :: "string \<Rightarrow> string \<times> string list" where
  "add_router_import content =
     (case last_import_end content of
        Some insert_pos \<Rightarrow>
          (if contains content ''from fastapi import'' then sub_fastapi_import content
           else insert_at insert_pos
                  (NL # ''from fastapi import APIRouter, HTTPException'' @ [NL]) content,
           [''Added APIRouter import''])
      | None \<Rightarrow>
          (''from fastapi import APIRouter, HTTPException'' @ [NL, NL] @ content,
           [''Added APIRouter import at beginning'']))"

text \<open>
  Fix 2, applied when the text had no router definition: the new text and the fix
  messages so far.
\<close>

definition add_router_definition :: "string \<times> string list \<Rightarrow> string \<times> string list" where
  "add_router_definition cf =
     (case cf of (content, applied) \<Rightarrow>
        (case last_import_end content of
           Some insert_pos \<Rightarrow>
             (insert_at insert_pos router_def_text content,
              applied @ [''Added router definition''])
         | None \<Rightarrow>
             if contains content ''from fastapi import APIRouter''
             then (content @ router_def_text, applied @ [''Added router definition at end''])
             else (content, applied)))"

text \<open>
  \<open>APIRouterFixer.fix_module_router\<close>: the exception that leaves the function (\<open>Inl\<close>) or
  the dictionary, and the tree afterwards. The existence test is \<open>Path.exists\<close>, called
  before the \<open>try\<close>: it raises for a directory that cannot be searched. Nothing in the
  function looks for route decorators.
\<close>

definition fix_module_router :: "tree \<Rightarrow> string \<Rightarrow> (string + router_result) \<times> tree" where
  "fix_module_router t module_name =
     (case stat_error t module_name of
        Some e \<Rightarrow> (Inl e, t)
      | None \<Rightarrow>
          if init_py t module_name = None
          then (Inr (router_error module_name ''Module not found''), t)
          else
            (case read_file t module_name of
               Inl e \<Rightarrow> (Inr (router_exception module_name e), t)
             | Inr original \<Rightarrow>
                 if is_blank original then (Inr (router_error module_name ''Empty file''), t)
                 else
                   (let had_import = contains original ''APIRouter'';
                        had_def = has_router_def original;
                        step1 = (if \<not> had_import then add_router_import original
                                 else (original, []));
                        step2 = (if \<not> had_def then add_router_definition step1 else step1)
                    in
                    case step2 of (content, applied) \<Rightarrow>
                      if applied = [] then
                        (Inr \<lparr>rr_module = module_name, rr_status = None,
                              had_router_import = Some had_import,
                              had_router_definition = Some had_def, rr_fixed = Some False,
                              rr_message = ''No router issues to fix''\<rparr>, t)
                      else
                        (case write_file t module_name content of
                           Inl e \<Rightarrow> (Inr (router_exception module_name e), t)
                         | Inr t' \<Rightarrow>
                             (Inr \<lparr>rr_module = module_name, rr_status = None,
                                   had_router_import = Some had_import,
                                   had_router_definition = Some had_def, rr_fixed = Some True,
                                   rr_message = join_comma applied\<rparr>, t')))))"












section \<open>Sample inputs\<close>

text \<open>
  The verdicts of CPython 3.11 on the texts the examples below use, as a table; the
  message of a \<open>SyntaxError\<close> ends with the base name of the file name and the line. A
  text outside the table raises an exception that is not a \<open>SyntaxError\<close>, so that no
  example rests on a verdict the table does not list.
\<close>

definition basename :: "string \<Rightarrow> string" where
  "basename p = rev (takeWhile (\<lambda>c. c \<noteq> CHR ''/'') (rev p))"

definition unterminated_at_1 :: "string \<Rightarrow> compile_result" where
  "unterminated_at_1 filename =
     RaisesSyntaxError (''unterminated string literal (detected at line 1) ('' @ basename filename
        @ '', line 1)'') (Some 1)"

definition unterminated_at_2 :: "string \<Rightarrow> compile_result" where
  "unterminated_at_2 filename =
     RaisesSyntaxError (''unterminated string literal (detected at line 2) ('' @ basename filename
        @ '', line 2)'') (Some 2)"

text \<open>
  A two-line text whose second line closes a docstring and opens a string that is never
  closed, and the same with an escaped double quote in the open string. One-line texts
  with an apostrophe inside an open double-quoted string, and with an escaped quote
  inside an open single-quoted string. CPython reports an unterminated string literal on
  the line of the open string for each.
\<close>

definition docstring_line :: string where
  "docstring_line = ''doc'' @ [DQ, DQ, DQ] @ '' + '' @ [DQ] @ ''it'' @ [SQ] @ ''s''"

definition docstring_text :: string where
  "docstring_text = ''x = '' @ [DQ, DQ, DQ] @ ''start'' @ [NL] @ docstring_line @ [NL]"

definition escaped_line :: string where
  "escaped_line = ''doc'' @ [DQ, DQ, DQ] @ '' + '' @ [DQ] @ ''a'' @ [CHR 0x5C, DQ] @ ''b''"

definition escaped_text :: string where
  "escaped_text = ''x = '' @ [DQ, DQ, DQ] @ ''start'' @ [NL] @ escaped_line @ [NL]"

definition apostrophe_line :: string where
  "apostrophe_line = ''x = '' @ [DQ] @ ''it'' @ [SQ] @ ''s''"

definition backslash_line :: string where
  "backslash_line = ''y = '' @ [SQ] @ ''a'' @ [CHR 0x5C, SQ] @ ''b''"

definition never_closed_at_1 :: "string \<Rightarrow> compile_result" where
  "never_closed_at_1 filename =
     RaisesSyntaxError (SQ # ''('' @ SQ # '' was never closed ('' @ basename filename
        @ '', line 1)'') (Some 1)"

definition sample_compiler :: compiler where
  "sample_compiler code filename =
     (if code = ''description = '' @ DQ # ''Luxury home'' @ [NL] then unterminated_at_1 filename
      else if code = ''description = '' @ DQ # ''Luxury home'' @ DQ # [NL] then Compiled
      else if code = ''x = ('' then never_closed_at_1 filename
      else if code = ''x = 1'' @ [NL] then Compiled
      else if code = ''import os'' @ [NL] then Compiled
      else if code = docstring_text then unterminated_at_2 filename
      else if code = ''x = '' @ [DQ, DQ, DQ] @ ''start'' @ [NL] @ docstring_line @ [SQ, NL]
        then unterminated_at_2 filename
      else if code = escaped_text then unterminated_at_2 filename
      else if code = ''x = '' @ [DQ, DQ, DQ] @ ''start'' @ [NL] @ escaped_line @ [NL, DQ, DQ, DQ, NL]
        then unterminated_at_2 filename
      else if code = ''x = '' @ [DQ, DQ, DQ] @ ''start'' @ [NL] @ escaped_line @ [DQ, NL]
        then Compiled
      else if code = apostrophe_line @ [NL] then unterminated_at_1 filename
      else if code = apostrophe_line @ [SQ, NL] then unterminated_at_1 filename
      else if code = apostrophe_line @ [DQ, NL] then Compiled
      else if code = backslash_line @ [NL] then unterminated_at_1 filename
      else if code = backslash_line @ [SQ, NL] then Compiled
      else RaisesOther ''text outside the sample table'')"

definition plain_file :: "string \<Rightarrow> pyfile" where
  "plain_file c = \<lparr>text_of = c, read_error = None, write_error = None\<rparr>"

definition unreadable_file :: "string \<Rightarrow> pyfile" where
  "unreadable_file e = \<lparr>text_of = [], read_error = Some e, write_error = Some e\<rparr>"


text \<open>
  A tree of seven modules: one with an unterminated string, one with an unclosed
  parenthesis, one that cannot be opened, two valid ones, and the two fixers' own modules,
  both broken. The directory also holds a \<open>__pycache__\<close> directory and a plain file,
  neither of which is a module.
\<close>

definition sample_tree :: tree where
  "sample_tree =
     \<lparr>entries = [''settings'', ''seo'', ''__pycache__'', ''media'', ''common'',
                 ''api_consistency'', ''README.md'', ''string_fixer'', ''module_checker''],
      init_py =
        [''settings'' \<mapsto> plain_file (''description = '' @ DQ # ''Luxury home'' @ [NL]),
         ''seo'' \<mapsto> plain_file ''x = ('',
         ''media'' \<mapsto> unreadable_file ''[Errno 13] Permission denied'',
         ''common'' \<mapsto> plain_file (''x = 1'' @ [NL]),
         ''api_consistency'' \<mapsto> plain_file ''x = ('',
         ''string_fixer'' \<mapsto> plain_file (''description = '' @ DQ # ''Luxury home'' @ [NL]),
         ''module_checker'' \<mapsto> plain_file (''x = 1'' @ [NL])],
      stat_error = Map.empty\<rparr>"




text \<open>
  A module without route decorators, and a module with one route whose decorator has no
  operation id.
\<close>

definition plain_module :: string where
  "plain_module = ''import os'' @ [NL]"

definition items_module :: string where
  "items_module =
     ''@router.get('' @ DQ # ''/items'' @ DQ # '')'' @ [NL] @ ''def list_items():'' @ [NL]
       @ ''    return []'' @ [NL]"


text \<open>A module that imports \<open>APIRouter\<close> and defines a router, without routes.\<close>

definition routed_module :: string where
  "routed_module = ''from fastapi import APIRouter'' @ [NL] @ ''router = APIRouter()'' @ [NL]"

text \<open>
  A tree of four modules: two hold the same route function, the other two have no route.
  The directory also holds \<open>__pycache__\<close> and a plain file.
\<close>

definition routes_tree :: tree where
  "routes_tree =
     \<lparr>entries = [''items'', ''__pycache__'', ''users'', ''README.md'', ''utils'', ''health''],
      init_py =
        [''items'' \<mapsto> plain_file items_module,
         ''users'' \<mapsto> plain_file items_module,
         ''utils'' \<mapsto> plain_file plain_module,
         ''health'' \<mapsto> plain_file routed_module],
      stat_error = Map.empty\<rparr>"

text \<open>
  The import of a sample module: it fails with the error of opening or compiling the
  entry file; none of the sample modules defines a \<open>router\<close>.
\<close>

definition sample_importer :: importer where
  "sample_importer m =
     (case read_file sample_tree m of
        Inl e \<Rightarrow> Inl e
      | Inr c \<Rightarrow>
          (case sample_compiler c ''__init__.py'' of
             Compiled \<Rightarrow> Inr False
           | RaisesSyntaxError e n \<Rightarrow> Inl e
           | RaisesOther e \<Rightarrow> Inl e))"

section \<open>Files and single-module repair\<close>

lemma write_file_frame:
  "write_file t m c = Inr t' \<Longrightarrow>
     entries t' = entries t \<and> (\<forall>m'. m' \<noteq> m \<longrightarrow> init_py t' m' = init_py t m')"
  by (auto simp: write_file_def split: option.splits)

lemma write_then_read:
  "read_file t m = Inr c0 \<Longrightarrow> write_file t m c = Inr t' \<Longrightarrow> read_file t' m = Inr c"
  by (auto simp: write_file_def read_file_def split: option.splits)

lemma read_file_exists: "read_file t m = Inr c \<Longrightarrow> init_py t m \<noteq> None"
  by (auto simp: read_file_def split: option.splits)

text \<open>The four ways \<open>fix_module_syntax\<close> ends, with what each leaves on disk.\<close>

lemma fix_module_syntax_cases:
  assumes "fix_module_syntax cmp t m = (r, t')"
  shows "(status r = ''fixed'' \<and> (\<exists>c0 c. read_file t m = Inr c0 \<and> c \<noteq> c0
             \<and> is_syntax_valid cmp c \<and> write_file t m c = Inr t'))
       \<or> (status r = ''no_issues'' \<and> t' = t \<and> (\<exists>c. read_file t m = Inr c \<and> is_syntax_valid cmp c))
       \<or> (status r = ''unfixable'' \<and> t' = t)
       \<or> (status r = ''error'' \<and> t' = t)"
  using assms
  by (auto simp: fix_module_syntax_def error_result_def
           split: if_splits sum.splits prod.splits option.splits)

lemma fix_module_string_literals_cases:
  assumes "fix_module_string_literals cmp t m = (r, t')"
  shows "(status r = ''fixed'' \<and> (\<exists>c0 c. read_file t m = Inr c0 \<and> c \<noteq> c0
             \<and> sf_is_syntax_valid cmp c = Inr True \<and> write_file t m c = Inr t'))
       \<or> (status r = ''no_issues'' \<and> t' = t
             \<and> (\<exists>c. read_file t m = Inr c \<and> sf_is_syntax_valid cmp c = Inr True))
       \<or> (status r = ''unfixable'' \<and> t' = t)
       \<or> (status r = ''error'' \<and> t' = t)"
  using assms
  by (auto simp: fix_module_string_literals_def error_result_def
           split: if_splits sum.splits prod.splits option.splits)

lemma syntax_loop_valid:
  "is_syntax_valid cmp c \<Longrightarrow> syntax_loop cmp (Suc k) c fx = Inr (c, fx)"
  by simp

lemma string_loop_valid:
  "sf_is_syntax_valid cmp c = Inr True \<Longrightarrow> string_loop cmp (Suc k) c fx = Inr (c, fx)"
  by simp

lemma ten_iterations: "(10::nat) = Suc 9"
  by simp

lemma five_iterations: "(5::nat) = Suc 4"
  by simp

lemma fix_module_syntax_valid:
  assumes "read_file t m = Inr c" "is_syntax_valid cmp c"
  shows "fix_module_syntax cmp t m =
          (\<lparr>module = m, status = ''no_issues'', message = ''No syntax issues found'',
            fixes_applied = None\<rparr>, t)"
proof -
  have "syntax_loop cmp 10 c [] = Inr (c, [])"
    unfolding ten_iterations using assms(2) by (rule syntax_loop_valid)
  then show ?thesis
    using assms read_file_exists[OF assms(1)] by (simp add: fix_module_syntax_def)
qed

lemma fix_module_string_literals_valid:
  assumes "read_file t m = Inr c" "sf_is_syntax_valid cmp c = Inr True"
  shows "fix_module_string_literals cmp t m =
          (\<lparr>module = m, status = ''no_issues'', message = ''No string literal issues found'',
            fixes_applied = None\<rparr>, t)"
proof -
  have "string_loop cmp 5 c [] = Inr (c, [])"
    unfolding five_iterations using assms(2) by (rule string_loop_valid)
  then show ?thesis
    using assms read_file_exists[OF assms(1)] by (simp add: fix_module_string_literals_def)
qed

text \<open>The repair of the sample modules, evaluated.\<close>

lemma sample_settings_fixed:
  "fst (fix_module_syntax sample_compiler sample_tree ''settings'') =
     \<lparr>module = ''settings'', status = ''fixed'', message = ''Fixed 1 issues'',
      fixes_applied = Some [''Fixed unterminated string at line 1'']\<rparr>
 \<and> read_file (snd (fix_module_syntax sample_compiler sample_tree ''settings'')) ''settings''
      = Inr (''description = '' @ DQ # ''Luxury home'' @ DQ # [NL])"
  by code_simp

lemma sample_settings_fixed_sf:
  "fst (fix_module_string_literals sample_compiler sample_tree ''settings'') =
     \<lparr>module = ''settings'', status = ''fixed'', message = ''Fixed 1 string literals'',
      fixes_applied = Some [''Fixed unterminated string at line 1'']\<rparr>
 \<and> read_file (snd (fix_module_string_literals sample_compiler sample_tree ''settings'')) ''settings''
      = Inr (''description = '' @ DQ # ''Luxury home'' @ DQ # [NL])"
  by code_simp

text \<open>
  C1. Whenever \<open>fix_module_syntax\<close> or \<open>fix_module_string_literals\<close> reports \<open>fixed\<close>,
  the text it left in the module's file is one the validator accepts.
\<close>

theorem fixed_report_persists_valid_text:
  "(status (fst (fix_module_syntax cmp t m)) = ''fixed''
      \<longrightarrow> (\<exists>c. read_file (snd (fix_module_syntax cmp t m)) m = Inr c \<and> is_syntax_valid cmp c))
 \<and> (status (fst (fix_module_string_literals cmp t m)) = ''fixed''
      \<longrightarrow> (\<exists>c. read_file (snd (fix_module_string_literals cmp t m)) m = Inr c
                \<and> sf_is_syntax_valid cmp c = Inr True))"
proof (intro conjI impI)
  assume a: "status (fst (fix_module_syntax cmp t m)) = ''fixed''"
  from fix_module_syntax_cases[of cmp t m "fst (fix_module_syntax cmp t m)"
         "snd (fix_module_syntax cmp t m)"] a
  obtain c0 c where "read_file t m = Inr c0" "is_syntax_valid cmp c"
    "write_file t m c = Inr (snd (fix_module_syntax cmp t m))"
    by auto
  then show "\<exists>c. read_file (snd (fix_module_syntax cmp t m)) m = Inr c \<and> is_syntax_valid cmp c"
    using write_then_read by blast
next
  assume a: "status (fst (fix_module_string_literals cmp t m)) = ''fixed''"
  from fix_module_string_literals_cases[of cmp t m "fst (fix_module_string_literals cmp t m)"
         "snd (fix_module_string_literals cmp t m)"] a
  obtain c0 c where "read_file t m = Inr c0" "sf_is_syntax_valid cmp c = Inr True"
    "write_file t m c = Inr (snd (fix_module_string_literals cmp t m))"
    by auto
  then show "\<exists>c. read_file (snd (fix_module_string_literals cmp t m)) m = Inr c
                \<and> sf_is_syntax_valid cmp c = Inr True"
    using write_then_read by blast
qed

theorem fixed_report_persists_valid_text_witness:
  "status (fst (fix_module_syntax sample_compiler sample_tree ''settings'')) = ''fixed''
 \<and> (\<exists>c. read_file (snd (fix_module_syntax sample_compiler sample_tree ''settings'')) ''settings'' = Inr c
        \<and> is_syntax_valid sample_compiler c)
 \<and> status (fst (fix_module_string_literals sample_compiler sample_tree ''settings'')) = ''fixed''
 \<and> (\<exists>c. read_file (snd (fix_module_string_literals sample_compiler sample_tree ''settings''))
           ''settings'' = Inr c
        \<and> sf_is_syntax_valid sample_compiler c = Inr True)"
proof -
  have a: "status (fst (fix_module_syntax sample_compiler sample_tree ''settings'')) = ''fixed''"
    by (simp add: sample_settings_fixed)
  have b: "status (fst (fix_module_string_literals sample_compiler sample_tree ''settings'')) = ''fixed''"
    by (simp add: sample_settings_fixed_sf)
  show ?thesis
    using fixed_report_persists_valid_text[of sample_compiler sample_tree "''settings''"] a b
    by simp
qed

text \<open>
  C3. A module whose text the validator accepts is reported \<open>no_issues\<close> by both
  repairers, and the tree (so the file's content) is returned as it was: nothing is
  written.
\<close>

theorem valid_module_reported_no_issues_and_kept:
  "(read_file t m = Inr c \<and> is_syntax_valid cmp c
      \<longrightarrow> status (fst (fix_module_syntax cmp t m)) = ''no_issues''
          \<and> snd (fix_module_syntax cmp t m) = t)
 \<and> (read_file t m = Inr c \<and> sf_is_syntax_valid cmp c = Inr True
      \<longrightarrow> status (fst (fix_module_string_literals cmp t m)) = ''no_issues''
          \<and> snd (fix_module_string_literals cmp t m) = t)"
  by (simp add: fix_module_syntax_valid fix_module_string_literals_valid)

theorem valid_module_reported_no_issues_and_kept_witness:
  "read_file sample_tree ''common'' = Inr (''x = 1'' @ [NL])
 \<and> is_syntax_valid sample_compiler (''x = 1'' @ [NL])
 \<and> sf_is_syntax_valid sample_compiler (''x = 1'' @ [NL]) = Inr True
 \<and> status (fst (fix_module_syntax sample_compiler sample_tree ''common'')) = ''no_issues''
 \<and> snd (fix_module_syntax sample_compiler sample_tree ''common'') = sample_tree
 \<and> status (fst (fix_module_string_literals sample_compiler sample_tree ''common'')) = ''no_issues''
 \<and> snd (fix_module_string_literals sample_compiler sample_tree ''common'') = sample_tree"
proof -
  have a: "read_file sample_tree ''common'' = Inr (''x = 1'' @ [NL])"
    by code_simp
  have b: "is_syntax_valid sample_compiler (''x = 1'' @ [NL])"
    by code_simp
  have c: "sf_is_syntax_valid sample_compiler (''x = 1'' @ [NL]) = Inr True"
    by code_simp
  show ?thesis
    using valid_module_reported_no_issues_and_kept[of sample_tree "''common''" "''x = 1'' @ [NL]"
            sample_compiler] a b c
    by simp
qed

text \<open>
  C4. A run that reports \<open>unfixable\<close> returns the tree as it was, and a run whose loop
  ends (its budget of 10, respectively 5, iterations spent or given up earlier) on a text
  the validator rejects reports \<open>unfixable\<close>: the rejected text is never written.
\<close>

theorem unfixable_leaves_file_untouched:
  "(status (fst (fix_module_syntax cmp t m)) = ''unfixable''
      \<longrightarrow> snd (fix_module_syntax cmp t m) = t)
 \<and> (read_file t m = Inr c \<and> syntax_loop cmp 10 c [] = Inr (c', fx) \<and> \<not> is_syntax_valid cmp c'
      \<longrightarrow> status (fst (fix_module_syntax cmp t m)) = ''unfixable''
          \<and> snd (fix_module_syntax cmp t m) = t)
 \<and> (status (fst (fix_module_string_literals cmp t m)) = ''unfixable''
      \<longrightarrow> snd (fix_module_string_literals cmp t m) = t)
 \<and> (read_file t m = Inr c \<and> string_loop cmp 5 c [] = Inr (c', fx)
        \<and> sf_is_syntax_valid cmp c' = Inr False
      \<longrightarrow> status (fst (fix_module_string_literals cmp t m)) = ''unfixable''
          \<and> snd (fix_module_string_literals cmp t m) = t)"
proof (intro conjI impI)
  assume "status (fst (fix_module_syntax cmp t m)) = ''unfixable''"
  then show "snd (fix_module_syntax cmp t m) = t"
    using fix_module_syntax_cases[of cmp t m "fst (fix_module_syntax cmp t m)"
            "snd (fix_module_syntax cmp t m)"]
    by auto
next
  assume "status (fst (fix_module_string_literals cmp t m)) = ''unfixable''"
  then show "snd (fix_module_string_literals cmp t m) = t"
    using fix_module_string_literals_cases[of cmp t m "fst (fix_module_string_literals cmp t m)"
            "snd (fix_module_string_literals cmp t m)"]
    by auto
next
  assume a: "read_file t m = Inr c \<and> syntax_loop cmp 10 c [] = Inr (c', fx)
               \<and> \<not> is_syntax_valid cmp c'"
  then have e: "init_py t m \<noteq> None"
    using read_file_exists by blast
  with a show "status (fst (fix_module_syntax cmp t m)) = ''unfixable''"
    by (simp add: fix_module_syntax_def)
  from a e show "snd (fix_module_syntax cmp t m) = t"
    by (simp add: fix_module_syntax_def)
next
  assume a: "read_file t m = Inr c \<and> string_loop cmp 5 c [] = Inr (c', fx)
               \<and> sf_is_syntax_valid cmp c' = Inr False"
  then have e: "init_py t m \<noteq> None"
    using read_file_exists by blast
  with a show "status (fst (fix_module_string_literals cmp t m)) = ''unfixable''"
    by (simp add: fix_module_string_literals_def)
  from a e show "snd (fix_module_string_literals cmp t m) = t"
    by (simp add: fix_module_string_literals_def)
qed

lemma sample_seo_loops:
  "syntax_loop sample_compiler 10 ''x = ('' [] =
     Inr (''x = ('', replicate 10 (''Couldn'' @ SQ # ''t fix syntax error: '' @ SQ # ''('' @ SQ
            # '' was never closed (<string>, line 1)''))
 \<and> string_loop sample_compiler 5 ''x = ('' [] = Inr (''x = ('', [])"
  by code_simp

theorem unfixable_leaves_file_untouched_witness:
  "read_file sample_tree ''seo'' = Inr ''x = (''
 \<and> \<not> is_syntax_valid sample_compiler ''x = (''
 \<and> sf_is_syntax_valid sample_compiler ''x = ('' = Inr False
 \<and> status (fst (fix_module_syntax sample_compiler sample_tree ''seo'')) = ''unfixable''
 \<and> snd (fix_module_syntax sample_compiler sample_tree ''seo'') = sample_tree
 \<and> status (fst (fix_module_string_literals sample_compiler sample_tree ''seo'')) = ''unfixable''
 \<and> snd (fix_module_string_literals sample_compiler sample_tree ''seo'') = sample_tree"
proof -
  have a: "read_file sample_tree ''seo'' = Inr ''x = (''"
    by code_simp
  have b: "\<not> is_syntax_valid sample_compiler ''x = (''"
    by code_simp
  have c: "sf_is_syntax_valid sample_compiler ''x = ('' = Inr False"
    by code_simp
  show ?thesis
    using unfixable_leaves_file_untouched[of sample_compiler sample_tree "''seo''" "''x = (''"
            "''x = (''"
            "replicate 10 (''Couldn'' @ SQ # ''t fix syntax error: '' @ SQ # ''('' @ SQ
               # '' was never closed (<string>, line 1)'')"]
          unfixable_leaves_file_untouched[of sample_compiler sample_tree "''seo''" "''x = (''"
            "''x = (''" "[]"]
          a b c sample_seo_loops
    by simp
qed

text \<open>
  C2 (as amended). A second run on the result of the first never changes the file again.
  It reports \<open>no_issues\<close> when the first run reported \<open>fixed\<close> or \<open>no_issues\<close>; after any
  other first report (\<open>unfixable\<close>, \<open>error\<close>) it returns the first report once more.
\<close>

theorem second_pass_changes_nothing:
  "(fix_module_syntax cmp t m = (r1, t1) \<and> fix_module_syntax cmp t1 m = (r2, t2)
      \<longrightarrow> t2 = t1
          \<and> (if status r1 = ''fixed'' \<or> status r1 = ''no_issues''
              then status r2 = ''no_issues'' else r2 = r1))
 \<and> (fix_module_string_literals cmp t m = (r1, t1) \<and> fix_module_string_literals cmp t1 m = (r2, t2)
      \<longrightarrow> t2 = t1
          \<and> (if status r1 = ''fixed'' \<or> status r1 = ''no_issues''
              then status r2 = ''no_issues'' else r2 = r1))"
proof (intro conjI impI)
  assume a: "fix_module_syntax cmp t m = (r1, t1) \<and> fix_module_syntax cmp t1 m = (r2, t2)"
  consider (fixed) c0 c where "status r1 = ''fixed''" "read_file t m = Inr c0"
      "is_syntax_valid cmp c" "write_file t m c = Inr t1"
    | (same) c where "status r1 = ''no_issues''" "t1 = t" "read_file t m = Inr c" "is_syntax_valid cmp c"
    | (other) "status r1 \<noteq> ''fixed''" "status r1 \<noteq> ''no_issues''" "t1 = t"
    using fix_module_syntax_cases[of cmp t m r1 t1] a by fastforce
  then have "t2 = t1 \<and> (if status r1 = ''fixed'' \<or> status r1 = ''no_issues''
              then status r2 = ''no_issues'' else r2 = r1)"
  proof cases
    case fixed
    then have "read_file t1 m = Inr c" using write_then_read by blast
    from fix_module_syntax_valid[OF this fixed(3)] a fixed(1) show ?thesis by simp
  next
    case same
    from a same(2) have "r2 = r1 \<and> t2 = t1" by auto
    with same(1) show ?thesis by simp
  next
    case other
    from a other(3) have "r2 = r1 \<and> t2 = t1" by auto
    with other(1,2) show ?thesis by simp
  qed
  then show "t2 = t1" and "if status r1 = ''fixed'' \<or> status r1 = ''no_issues''
              then status r2 = ''no_issues'' else r2 = r1"
    by simp_all
next
  assume a: "fix_module_string_literals cmp t m = (r1, t1)
               \<and> fix_module_string_literals cmp t1 m = (r2, t2)"
  consider (fixed) c0 c where "status r1 = ''fixed''" "read_file t m = Inr c0"
      "sf_is_syntax_valid cmp c = Inr True" "write_file t m c = Inr t1"
    | (same) c where "status r1 = ''no_issues''" "t1 = t" "read_file t m = Inr c"
      "sf_is_syntax_valid cmp c = Inr True"
    | (other) "status r1 \<noteq> ''fixed''" "status r1 \<noteq> ''no_issues''" "t1 = t"
    using fix_module_string_literals_cases[of cmp t m r1 t1] a by fastforce
  then have "t2 = t1 \<and> (if status r1 = ''fixed'' \<or> status r1 = ''no_issues''
              then status r2 = ''no_issues'' else r2 = r1)"
  proof cases
    case fixed
    then have "read_file t1 m = Inr c" using write_then_read by blast
    from fix_module_string_literals_valid[OF this fixed(3)] a fixed(1) show ?thesis by simp
  next
    case same
    from a same(2) have "r2 = r1 \<and> t2 = t1" by auto
    with same(1) show ?thesis by simp
  next
    case other
    from a other(3) have "r2 = r1 \<and> t2 = t1" by auto
    with other(1,2) show ?thesis by simp
  qed
  then show "t2 = t1" and "if status r1 = ''fixed'' \<or> status r1 = ''no_issues''
              then status r2 = ''no_issues'' else r2 = r1"
    by simp_all
qed

theorem second_pass_changes_nothing_witness:
  "status (fst (fix_module_syntax sample_compiler sample_tree ''settings'')) = ''fixed''
 \<and> snd (fix_module_syntax sample_compiler
          (snd (fix_module_syntax sample_compiler sample_tree ''settings'')) ''settings'')
     = snd (fix_module_syntax sample_compiler sample_tree ''settings'')
 \<and> status (fst (fix_module_syntax sample_compiler
          (snd (fix_module_syntax sample_compiler sample_tree ''settings'')) ''settings''))
     = ''no_issues''
 \<and> status (fst (fix_module_string_literals sample_compiler sample_tree ''settings'')) = ''fixed''
 \<and> snd (fix_module_string_literals sample_compiler
          (snd (fix_module_string_literals sample_compiler sample_tree ''settings'')) ''settings'')
     = snd (fix_module_string_literals sample_compiler sample_tree ''settings'')
 \<and> status (fst (fix_module_string_literals sample_compiler
          (snd (fix_module_string_literals sample_compiler sample_tree ''settings'')) ''settings''))
     = ''no_issues''"
proof -
  have a: "status (fst (fix_module_syntax sample_compiler sample_tree ''settings'')) = ''fixed''"
    by (simp add: sample_settings_fixed)
  have b: "status (fst (fix_module_string_literals sample_compiler sample_tree ''settings'')) = ''fixed''"
    by (simp add: sample_settings_fixed_sf)
  show ?thesis
    using second_pass_changes_nothing[of sample_compiler sample_tree "''settings''"
            "fst (fix_module_syntax sample_compiler sample_tree ''settings'')"
            "snd (fix_module_syntax sample_compiler sample_tree ''settings'')"
            "fst (fix_module_syntax sample_compiler
               (snd (fix_module_syntax sample_compiler sample_tree ''settings'')) ''settings'')"
            "snd (fix_module_syntax sample_compiler
               (snd (fix_module_syntax sample_compiler sample_tree ''settings'')) ''settings'')"]
          second_pass_changes_nothing[of sample_compiler sample_tree "''settings''"
            "fst (fix_module_string_literals sample_compiler sample_tree ''settings'')"
            "snd (fix_module_string_literals sample_compiler sample_tree ''settings'')"
            "fst (fix_module_string_literals sample_compiler
               (snd (fix_module_string_literals sample_compiler sample_tree ''settings'')) ''settings'')"
            "snd (fix_module_string_literals sample_compiler
               (snd (fix_module_string_literals sample_compiler sample_tree ''settings'')) ''settings'')"]
          a b
    by simp
qed

text \<open>
  The claim as stated fails on a module the repairers cannot fix: the text \<open>x = (\<close> is
  reported \<open>unfixable\<close> by the first run and by the second, not \<open>no_issues\<close>.
\<close>

theorem second_pass_unfixable_counterexample:
  "status (fst (fix_module_syntax sample_compiler sample_tree ''seo'')) = ''unfixable''
 \<and> status (fst (fix_module_syntax sample_compiler
       (snd (fix_module_syntax sample_compiler sample_tree ''seo'')) ''seo'')) = ''unfixable''
 \<and> status (fst (fix_module_string_literals sample_compiler sample_tree ''seo'')) = ''unfixable''
 \<and> status (fst (fix_module_string_literals sample_compiler
       (snd (fix_module_string_literals sample_compiler sample_tree ''seo'')) ''seo'')) = ''unfixable''"
  by code_simp

section \<open>Batch operations\<close>

lemma list_modules_from_filter:
  "list_modules_from t ds = Inr ms \<Longrightarrow> ms = filter (\<lambda>d. init_py t d \<noteq> None) ds"
proof (induction ds arbitrary: ms)
  case Nil
  then show ?case by simp
next
  case (Cons d ds)
  then show ?case
    by (auto split: option.splits sum.splits if_splits)
qed

lemma list_modules_filter:
  "list_modules t = Inr ms \<Longrightarrow> ms = filter (\<lambda>d. init_py t d \<noteq> None) (entries t)"
  unfolding list_modules_def by (rule list_modules_from_filter)

lemma list_modules_report:
  "list_modules t = Inr ms \<Longrightarrow> \<exists>r. fst (fix_all_modules_syntax cmp t) = Inr r"
  by (simp add: fix_all_modules_syntax_def split: prod.splits)

lemma list_modules_check_report:
  "list_modules t = Inr ms \<Longrightarrow> \<exists>c. check_all_modules imp t = Inr c"
  by (simp add: check_all_modules_def split: prod.splits)

lemma fix_module_syntax_other:
  "fix_module_syntax cmp t m = (r, t') \<Longrightarrow> m' \<noteq> m \<Longrightarrow> init_py t' m' = init_py t m'"
  using fix_module_syntax_cases[of cmp t m r t'] write_file_frame by blast

lemma fix_module_string_literals_other:
  "fix_module_string_literals cmp t m = (r, t') \<Longrightarrow> m' \<noteq> m \<Longrightarrow> init_py t' m' = init_py t m'"
  using fix_module_string_literals_cases[of cmp t m r t'] write_file_frame by blast

lemma fix_all_loop_skips:
  "fix_all_loop cmp ms acc t = (acc', t') \<Longrightarrow> m \<in> set skip_list \<Longrightarrow> init_py t' m = init_py t m"
proof (induction ms arbitrary: acc t)
  case Nil
  then show ?case by simp
next
  case (Cons a ms)
  obtain rs x y z where acc: "acc = (rs, x, y, z)" by (cases acc) auto
  show ?case
  proof (cases "a \<in> set skip_list")
    case True
    with Cons acc show ?thesis by simp
  next
    case False
    obtain r t1 where step: "fix_module_syntax cmp t a = (r, t1)" by fastforce
    from False Cons.prems(2) have "m \<noteq> a" by auto
    then have keep: "init_py t1 m = init_py t m"
      using fix_module_syntax_other[OF step] by simp
    from Cons.prems(1) acc False step
    obtain acc1 where "fix_all_loop cmp ms acc1 t1 = (acc', t')"
      by (auto split: if_splits)
    from Cons.IH[OF this Cons.prems(2)] keep show ?thesis by simp
  qed
qed

lemma sf_fix_all_loop_skips:
  "sf_fix_all_loop cmp ms acc t = (acc', t') \<Longrightarrow> init_py t' ''string_fixer'' = init_py t ''string_fixer''"
proof (induction ms arbitrary: acc t)
  case Nil
  then show ?case by simp
next
  case (Cons a ms)
  obtain rs x y z where acc: "acc = (rs, x, y, z)" by (cases acc) auto
  show ?case
  proof (cases "a = ''string_fixer''")
    case True
    with Cons acc show ?thesis by simp
  next
    case False
    obtain r t1 where step: "fix_module_string_literals cmp t a = (r, t1)" by fastforce
    have keep: "init_py t1 ''string_fixer'' = init_py t ''string_fixer''"
      using fix_module_string_literals_other[OF step] False by simp
    from Cons.prems(1) acc False step
    obtain acc1 where "sf_fix_all_loop cmp ms acc1 t1 = (acc', t')"
      by (auto split: if_splits)
    from Cons.IH[OF this] keep show ?thesis by simp
  qed
qed

text \<open>
  C8. The batch operations never write to the module that runs them: whatever the tree,
  also when that file is broken, \<open>fix_all_modules_syntax\<close> returns the entry file of
  \<open>api_consistency\<close> as it was, and \<open>fix_all_modules\<close> of \<open>string_fixer\<close> that of
  \<open>string_fixer\<close>.
\<close>

theorem batch_fix_never_writes_own_module:
  "init_py (snd (fix_all_modules_syntax cmp t)) ''api_consistency'' = init_py t ''api_consistency''
 \<and> init_py (snd (sf_fix_all_modules cmp t)) ''string_fixer'' = init_py t ''string_fixer''"
proof
  show "init_py (snd (fix_all_modules_syntax cmp t)) ''api_consistency'' = init_py t ''api_consistency''"
  proof (cases "list_modules t")
    case (Inl e)
    then show ?thesis by (simp add: fix_all_modules_syntax_def)
  next
    case (Inr ms)
    obtain acc' t' where l: "fix_all_loop cmp ms ([], 0, 0, 0) t = (acc', t')" by fastforce
    have "''api_consistency'' \<in> set skip_list" by (simp add: skip_list_def)
    from fix_all_loop_skips[OF l this] l Inr show ?thesis
      by (simp add: fix_all_modules_syntax_def split: prod.splits)
  qed
next
  show "init_py (snd (sf_fix_all_modules cmp t)) ''string_fixer'' = init_py t ''string_fixer''"
  proof (cases "list_modules t")
    case (Inl e)
    then show ?thesis by (simp add: sf_fix_all_modules_def)
  next
    case (Inr ms)
    obtain acc' t' where l: "sf_fix_all_loop cmp ms ([], 0, 0, 0) t = (acc', t')" by fastforce
    from sf_fix_all_loop_skips[OF l] l Inr show ?thesis
      by (simp add: sf_fix_all_modules_def split: prod.splits)
  qed
qed

theorem batch_fix_never_writes_own_module_witness:
  "\<not> is_syntax_valid sample_compiler ''x = (''
 \<and> init_py (snd (fix_all_modules_syntax sample_compiler sample_tree)) ''api_consistency''
      = Some (plain_file ''x = ('')
 \<and> init_py (snd (sf_fix_all_modules sample_compiler sample_tree)) ''string_fixer''
      = Some (plain_file (''description = '' @ DQ # ''Luxury home'' @ [NL]))"
proof -
  have a: "\<not> is_syntax_valid sample_compiler ''x = (''"
    by code_simp
  have b: "init_py sample_tree ''api_consistency'' = Some (plain_file ''x = ('')"
    by (simp add: sample_tree_def)
  have c: "init_py sample_tree ''string_fixer''
             = Some (plain_file (''description = '' @ DQ # ''Luxury home'' @ [NL]))"
    by (simp add: sample_tree_def)
  show ?thesis
    using batch_fix_never_writes_own_module[of sample_compiler sample_tree] a b c
    by simp
qed

lemma fix_all_loop_counts:
  "fix_all_loop cmp ms (rs, x, y, z) t = ((rs', x', y', z'), t') \<Longrightarrow>
     x' + y' + z' = x + y + z + length (filter (\<lambda>m. m \<notin> set skip_list) ms)
   \<and> length rs' = length rs + length (filter (\<lambda>m. m \<notin> set skip_list) ms)"
proof (induction ms arbitrary: rs x y z t)
  case Nil
  then show ?case by simp
next
  case (Cons a ms)
  show ?case
  proof (cases "a \<in> set skip_list")
    case True
    with Cons show ?thesis by simp
  next
    case False
    obtain r t1 where step: "fix_module_syntax cmp t a = (r, t1)" by fastforce
    consider "status r = ''fixed''" | "status r \<noteq> ''fixed''" "status r = ''no_issues''"
      | "status r \<noteq> ''fixed''" "status r \<noteq> ''no_issues''" by blast
    then show ?thesis
    proof cases
      case 1
      with Cons.prems False step
      have "fix_all_loop cmp ms (rs @ [r], x + 1, y, z) t1 = ((rs', x', y', z'), t')" by simp
      from Cons.IH[OF this] False show ?thesis by simp
    next
      case 2
      with Cons.prems False step
      have "fix_all_loop cmp ms (rs @ [r], x, y + 1, z) t1 = ((rs', x', y', z'), t')" by simp
      from Cons.IH[OF this] False show ?thesis by simp
    next
      case 3
      with Cons.prems False step
      have "fix_all_loop cmp ms (rs @ [r], x, y, z + 1) t1 = ((rs', x', y', z'), t')" by simp
      from Cons.IH[OF this] False show ?thesis by simp
    qed
  qed
qed

lemma check_all_loop_counts:
  "check_all_loop imp t ms (rs, x, y) = (rs', x', y') \<Longrightarrow>
     x' + y' = x + y + length (filter (\<lambda>m. m \<noteq> ''module_checker'') ms)
   \<and> length rs' = length rs + length (filter (\<lambda>m. m \<noteq> ''module_checker'') ms)"
proof (induction ms arbitrary: rs x y)
  case Nil
  then show ?case by simp
next
  case (Cons a ms)
  show ?case
  proof (cases "a = ''module_checker''")
    case True
    with Cons show ?thesis by simp
  next
    case False
    show ?thesis
    proof (cases "ms_status (check_module imp t a) = ''valid''")
      case True
      with Cons.prems False
      have "check_all_loop imp t ms (rs @ [check_module imp t a], x + 1, y) = (rs', x', y')"
        by (simp add: Let_def)
      from Cons.IH[OF this] False show ?thesis by simp
    next
      case nv: False
      with Cons.prems False
      have "check_all_loop imp t ms (rs @ [check_module imp t a], x, y + 1) = (rs', x', y')"
        by (simp add: Let_def)
      from Cons.IH[OF this] False show ?thesis by simp
    qed
  qed
qed

text \<open>
  C10. In every report \<open>fix_all_modules_syntax\<close> returns, the total is the number of
  listed names that are directories holding an entry file, the fixer modules on the skip
  list among them; the three status counters and the result list cover only the modules
  not on the skip list, so the counters add up to the total less the number of
  skip-listed modules on disk. The same holds for \<open>check_all_modules\<close> with its one
  skipped module.
\<close>

theorem batch_counters_cover_unskipped_modules:
  "(fst (fix_all_modules_syntax cmp t) = Inr r \<longrightarrow>
      total_modules r = length (filter (\<lambda>d. init_py t d \<noteq> None) (entries t))
    \<and> fixed_modules r + modules_without_issues r + modules_with_errors r
        + length (filter (\<lambda>d. init_py t d \<noteq> None \<and> d \<in> set skip_list) (entries t))
        = total_modules r
    \<and> length (results r) = fixed_modules r + modules_without_issues r + modules_with_errors r)
 \<and> (check_all_modules imp t = Inr c \<longrightarrow>
      total c = length (filter (\<lambda>d. init_py t d \<noteq> None) (entries t))
    \<and> valid c + invalid c
        + length (filter (\<lambda>d. init_py t d \<noteq> None \<and> d = ''module_checker'') (entries t))
        = total c
    \<and> length (modules c) = valid c + invalid c)"
proof (intro conjI impI)
  assume a: "fst (fix_all_modules_syntax cmp t) = Inr r"
  then obtain ms where lm: "list_modules t = Inr ms"
    by (cases "list_modules t") (simp_all add: fix_all_modules_syntax_def)
  note ms = list_modules_filter[OF lm]
  obtain rs x y z t' where l: "fix_all_loop cmp ms ([], 0, 0, 0) t = ((rs, x, y, z), t')"
    by (metis surj_pair)
  from a lm l have r: "r = \<lparr>results = rs, total_modules = length ms, fixed_modules = x,
       modules_without_issues = y, modules_with_errors = z\<rparr>"
    by (simp add: fix_all_modules_syntax_def)
  have split: "length (filter (\<lambda>m. m \<notin> set skip_list) ms)
      + length (filter (\<lambda>m. m \<in> set skip_list) ms) = length ms"
    using sum_length_filter_compl[of "\<lambda>m. m \<in> set skip_list" ms] by simp
  have skipped: "filter (\<lambda>m. m \<in> set skip_list) ms
      = filter (\<lambda>d. init_py t d \<noteq> None \<and> d \<in> set skip_list) (entries t)"
    unfolding ms by simp
  show "total_modules r = length (filter (\<lambda>d. init_py t d \<noteq> None) (entries t))"
    unfolding r using ms by simp
  show "fixed_modules r + modules_without_issues r + modules_with_errors r
        + length (filter (\<lambda>d. init_py t d \<noteq> None \<and> d \<in> set skip_list) (entries t))
        = total_modules r"
    unfolding r skipped[symmetric] using fix_all_loop_counts[OF l] split by simp
  show "length (results r) = fixed_modules r + modules_without_issues r + modules_with_errors r"
    unfolding r using fix_all_loop_counts[OF l] by simp
next
  assume a: "check_all_modules imp t = Inr c"
  then obtain ms where lm: "list_modules t = Inr ms"
    by (cases "list_modules t") (simp_all add: check_all_modules_def)
  note ms = list_modules_filter[OF lm]
  obtain rs x y where l: "check_all_loop imp t ms ([], 0, 0) = (rs, x, y)"
    by (metis surj_pair)
  from a lm l have c: "c = \<lparr>modules = rs, total = length ms, valid = x, invalid = y\<rparr>"
    by (simp add: check_all_modules_def)
  have split: "length (filter (\<lambda>m. m \<noteq> ''module_checker'') ms)
      + length (filter (\<lambda>m. m = ''module_checker'') ms) = length ms"
    using sum_length_filter_compl[of "\<lambda>m. m = ''module_checker''" ms] by simp
  have skipped: "filter (\<lambda>m. m = ''module_checker'') ms
      = filter (\<lambda>d. init_py t d \<noteq> None \<and> d = ''module_checker'') (entries t)"
    unfolding ms by simp
  show "total c = length (filter (\<lambda>d. init_py t d \<noteq> None) (entries t))"
    unfolding c using ms by simp
  show "valid c + invalid c
        + length (filter (\<lambda>d. init_py t d \<noteq> None \<and> d = ''module_checker'') (entries t))
        = total c"
    unfolding c skipped[symmetric] using check_all_loop_counts[OF l] split by simp
  show "length (modules c) = valid c + invalid c"
    unfolding c using check_all_loop_counts[OF l] by simp
qed

lemma sample_modules:
  "list_modules sample_tree = Inr [''settings'', ''seo'', ''media'', ''common'', ''api_consistency'',
                 ''string_fixer'', ''module_checker'']"
  by code_simp

lemma sample_entries:
  "length (entries sample_tree) = 9
 \<and> length (filter (\<lambda>d. init_py sample_tree d \<noteq> None) (entries sample_tree)) = 7
 \<and> length (filter (\<lambda>d. init_py sample_tree d \<noteq> None \<and> d \<in> set skip_list) (entries sample_tree)) = 2
 \<and> length (filter (\<lambda>d. init_py sample_tree d \<noteq> None \<and> d = ''module_checker'')
       (entries sample_tree)) = 1"
  by code_simp

theorem batch_counters_cover_unskipped_modules_witness:
  "length (entries sample_tree) = 9
 \<and> (\<exists>r. fst (fix_all_modules_syntax sample_compiler sample_tree) = Inr r
        \<and> total_modules r = 7
        \<and> fixed_modules r + modules_without_issues r + modules_with_errors r = 5
        \<and> length (results r) = 5)
 \<and> (\<exists>c. check_all_modules sample_importer sample_tree = Inr c
        \<and> total c = 7
        \<and> valid c + invalid c = 6
        \<and> length (modules c) = 6)"
proof -
  obtain r where r: "fst (fix_all_modules_syntax sample_compiler sample_tree) = Inr r"
    using list_modules_report[OF sample_modules] by blast
  obtain c where c: "check_all_modules sample_importer sample_tree = Inr c"
    using list_modules_check_report[OF sample_modules] by blast
  note th = batch_counters_cover_unskipped_modules[of sample_compiler sample_tree r
              sample_importer c]
  from th r sample_entries
  have one: "total_modules r = 7
        \<and> fixed_modules r + modules_without_issues r + modules_with_errors r = 5
        \<and> length (results r) = 5"
    by simp
  from th c sample_entries
  have two: "total c = 7 \<and> valid c + invalid c = 6 \<and> length (modules c) = 6"
    by simp
  from r c one two sample_entries show ?thesis by blast
qed

section \<open>Batches and input/output errors\<close>



















section \<open>The quote heuristics\<close>

lemma fm_selected_kind_cases:
  fixes l :: string
  defines "A \<equiv> (int (str_count l [SQ]) - int (str_count l [SQ, SQ, SQ]) * 3) mod 2 = 1"
    and "B \<equiv> (int (str_count l [DQ]) - int (str_count l [DQ, DQ, DQ]) * 3) mod 2 = 1"
    and "C \<equiv> int (str_count l [SQ, SQ, SQ]) mod 2 = 1"
    and "D \<equiv> int (str_count l [DQ, DQ, DQ]) mod 2 = 1"
  shows "fm_selected_kind l =
           (if A then Some Single else if B then Some Double
            else if C then Some TripleSingle else if D then Some TripleDouble else None)"
  unfolding fm_selected_kind_def Let_def A_def B_def C_def D_def ..

lemma fm_fix_line_cases:
  fixes lines :: "string list" and n :: int
  defines "l \<equiv> lines ! nat (n - 1)"
  defines "A \<equiv> (int (str_count l [SQ]) - int (str_count l [SQ, SQ, SQ]) * 3) mod 2 = 1"
    and "B \<equiv> (int (str_count l [DQ]) - int (str_count l [DQ, DQ, DQ]) * 3) mod 2 = 1"
    and "C \<equiv> int (str_count l [SQ, SQ, SQ]) mod 2 = 1"
    and "D \<equiv> int (str_count l [DQ, DQ, DQ]) mod 2 = 1"
  shows "fst (fm_fix_line lines n) =
      (if A then lines[nat (n - 1) := l @ [SQ]]
       else if B then lines[nat (n - 1) := l @ [DQ]]
       else if C then
         (if endswith l [SQ, SQ] \<or> endswith l [SQ]
          then lines[nat (n - 1) := l @ replicate (3 - (if endswith l [SQ] then 1 else 2)) SQ]
          else (take (nat n) lines @ [[SQ, SQ, SQ]] @ drop (nat n) lines)[nat (n - 1) := l])
       else if D then
         (if endswith l [DQ, DQ] \<or> endswith l [DQ]
          then lines[nat (n - 1) := l @ replicate (3 - (if endswith l [DQ] then 1 else 2)) DQ]
          else (take (nat n) lines @ [[DQ, DQ, DQ]] @ drop (nat n) lines)[nat (n - 1) := l])
       else if str_count l [SQ] > str_count l [DQ] then lines[nat (n - 1) := l @ [SQ]]
       else lines[nat (n - 1) := l @ [DQ]])"
  unfolding fm_fix_line_def Let_def A_def B_def C_def D_def l_def
  by (simp only: fst_conv if_distrib[of fst] cong: if_cong)


lemma selected_kind_cases:
  fixes l :: string
  defines "A \<equiv> str_count l [SQ] mod 2 = 1 \<and> str_count l [DQ] mod 2 = 0"
    and "B \<equiv> str_count l [DQ] mod 2 = 1 \<and> str_count l [SQ] mod 2 = 0"
    and "C \<equiv> str_count l [SQ, SQ, SQ] mod 2 = 1"
    and "D \<equiv> str_count l [DQ, DQ, DQ] mod 2 = 1"
  shows "selected_kind l =
           (if A then Some Single else if B then Some Double
            else if C then Some TripleSingle else if D then Some TripleDouble else None)"
  unfolding selected_kind_def Let_def A_def B_def C_def D_def ..

lemma fix_unterminated_string_cases:
  fixes code :: string and n :: int
  defines "l \<equiv> split_nl code ! nat (n - 1)"
  defines "A \<equiv> str_count l [SQ] mod 2 = 1 \<and> str_count l [DQ] mod 2 = 0"
    and "B \<equiv> str_count l [DQ] mod 2 = 1 \<and> str_count l [SQ] mod 2 = 0"
    and "C \<equiv> str_count l [SQ, SQ, SQ] mod 2 = 1"
    and "D \<equiv> str_count l [DQ, DQ, DQ] mod 2 = 1"
  assumes "0 < n" "n \<le> int (length (split_nl code))"
  shows "A \<or> B \<or> C \<or> D \<Longrightarrow> fix_unterminated_string cmp code n =
      (if A then join_nl ((split_nl code)[nat (n - 1) := l @ [SQ]])
       else if B then join_nl ((split_nl code)[nat (n - 1) := l @ [DQ]])
       else if C then join_nl ((split_nl code)[nat (n - 1) := l @ [SQ, SQ, SQ]])
       else join_nl ((split_nl code)[nat (n - 1) := l @ [DQ, DQ, DQ]]))"
proof -
  assume abcd: "A \<or> B \<or> C \<or> D"
  have r: "\<not> (n \<le> 0 \<or> n > int (length (split_nl code)))" using assms(6,7) by simp
  have "fix_unterminated_string cmp code n =
      (if A then join_nl ((split_nl code)[nat (n - 1) := l @ [SQ]])
       else if B then join_nl ((split_nl code)[nat (n - 1) := l @ [DQ]])
       else if C then join_nl ((split_nl code)[nat (n - 1) := l @ [SQ, SQ, SQ]])
       else if D then join_nl ((split_nl code)[nat (n - 1) := l @ [DQ, DQ, DQ]])
       else if is_syntax_valid cmp (join_nl ((split_nl code)[nat (n - 1) := l @ [SQ]]))
          then join_nl ((split_nl code)[nat (n - 1) := l @ [SQ]])
        else if is_syntax_valid cmp (join_nl ((split_nl code)[nat (n - 1) := l @ [DQ]]))
          then join_nl ((split_nl code)[nat (n - 1) := l @ [DQ]])
        else if is_syntax_valid cmp (code @ [SQ]) then code @ [SQ]
        else if is_syntax_valid cmp (code @ [DQ]) then code @ [DQ]
        else join_nl (split_nl code))"
    unfolding fix_unterminated_string_def Let_def A_def B_def C_def D_def l_def
    by (simp only: r if_False)
  then show ?thesis using abcd by (cases A; cases B; cases C; cases D; simp)
qed


lemma insert_keeps_line:
  "i < n \<Longrightarrow> n \<le> length ls \<Longrightarrow>
     (take n ls @ q # drop n ls)[i := ls ! i] = take n ls @ q # drop n ls"
  by (simp add: list_update_append nth_append list_update_same_conv)

lemma endswith_two: "endswith l [q, q] \<Longrightarrow> endswith l [q]"
  by (cases "rev l") (auto simp: endswith_def)

lemma fix_unterminated_string_selected:
  assumes "0 < n" "n \<le> int (length (split_nl code))"
    and sel: "selected_kind (split_nl code ! nat (n - 1)) = Some k"
  shows "fix_unterminated_string cmp code n =
           join_nl ((split_nl code)[nat (n - 1) := split_nl code ! nat (n - 1) @ quote_str k])"
proof -
  define l where "l = split_nl code ! nat (n - 1)"
  define A where "A \<longleftrightarrow> str_count l [SQ] mod 2 = 1 \<and> str_count l [DQ] mod 2 = 0"
  define B where "B \<longleftrightarrow> str_count l [DQ] mod 2 = 1 \<and> str_count l [SQ] mod 2 = 0"
  define C where "C \<longleftrightarrow> str_count l [SQ, SQ, SQ] mod 2 = 1"
  define D where "D \<longleftrightarrow> str_count l [DQ, DQ, DQ] mod 2 = 1"
  have sk: "selected_kind l =
           (if A then Some Single else if B then Some Double
            else if C then Some TripleSingle else if D then Some TripleDouble else None)"
    unfolding A_def B_def C_def D_def by (rule selected_kind_cases)
  have fx: "A \<or> B \<or> C \<or> D \<Longrightarrow> fix_unterminated_string cmp code n =
      (if A then join_nl ((split_nl code)[nat (n - 1) := l @ [SQ]])
       else if B then join_nl ((split_nl code)[nat (n - 1) := l @ [DQ]])
       else if C then join_nl ((split_nl code)[nat (n - 1) := l @ [SQ, SQ, SQ]])
       else join_nl ((split_nl code)[nat (n - 1) := l @ [DQ, DQ, DQ]]))"
    unfolding A_def B_def C_def D_def l_def
    by (rule fix_unterminated_string_cases[OF assms(1,2)])
  from sel have sel': "selected_kind l = Some k" by (simp only: l_def)
  have goal: "fix_unterminated_string cmp code n
                = join_nl ((split_nl code)[nat (n - 1) := l @ quote_str k])"
    using sk sel' fx by (cases A; cases B; cases C; cases D; cases k; simp)
  then show ?thesis by (simp only: l_def)
qed

lemma fm_fix_line_selected:
  assumes sel: "fm_selected_kind (lines ! nat (n - 1)) = Some k"
  shows "(k = Single \<or> k = Double \<longrightarrow>
            fst (fm_fix_line lines n) = lines[nat (n - 1) := lines ! nat (n - 1) @ quote_str k])
       \<and> ((k = TripleSingle \<or> k = TripleDouble) \<and> 0 < n \<and> n \<le> int (length lines) \<longrightarrow>
            fst (fm_fix_line lines n) =
              (if endswith (lines ! nat (n - 1)) [hd (quote_str k)]
               then lines[nat (n - 1) := lines ! nat (n - 1) @ [hd (quote_str k), hd (quote_str k)]]
               else take (nat n) lines @ quote_str k # drop (nat n) lines))"
proof -
  define l where "l = lines ! nat (n - 1)"
  define A where "A \<longleftrightarrow> (int (str_count l [SQ]) - int (str_count l [SQ, SQ, SQ]) * 3) mod 2 = 1"
  define B where "B \<longleftrightarrow> (int (str_count l [DQ]) - int (str_count l [DQ, DQ, DQ]) * 3) mod 2 = 1"
  define C where "C \<longleftrightarrow> int (str_count l [SQ, SQ, SQ]) mod 2 = 1"
  define D where "D \<longleftrightarrow> int (str_count l [DQ, DQ, DQ]) mod 2 = 1"
  define ES where "ES \<longleftrightarrow> endswith l [SQ]"
  define ES2 where "ES2 \<longleftrightarrow> endswith l [SQ, SQ]"
  define ED where "ED \<longleftrightarrow> endswith l [DQ]"
  define ED2 where "ED2 \<longleftrightarrow> endswith l [DQ, DQ]"
  have sk: "fm_selected_kind l =
           (if A then Some Single else if B then Some Double
            else if C then Some TripleSingle else if D then Some TripleDouble else None)"
    unfolding A_def B_def C_def D_def by (rule fm_selected_kind_cases)
  have fx: "fst (fm_fix_line lines n) =
      (if A then lines[nat (n - 1) := l @ [SQ]]
       else if B then lines[nat (n - 1) := l @ [DQ]]
       else if C then
         (if ES2 \<or> ES
          then lines[nat (n - 1) := l @ replicate (3 - (if ES then 1 else 2)) SQ]
          else (take (nat n) lines @ [[SQ, SQ, SQ]] @ drop (nat n) lines)[nat (n - 1) := l])
       else if D then
         (if ED2 \<or> ED
          then lines[nat (n - 1) := l @ replicate (3 - (if ED then 1 else 2)) DQ]
          else (take (nat n) lines @ [[DQ, DQ, DQ]] @ drop (nat n) lines)[nat (n - 1) := l])
       else if str_count l [SQ] > str_count l [DQ] then lines[nat (n - 1) := l @ [SQ]]
       else lines[nat (n - 1) := l @ [DQ]])"
    unfolding A_def B_def C_def D_def l_def ES_def ES2_def ED_def ED2_def
    by (rule fm_fix_line_cases)
  from sel have sel': "fm_selected_kind l = Some k" by (simp only: l_def)
  have e2: "ES2 \<Longrightarrow> ES" "ED2 \<Longrightarrow> ED"
    unfolding ES_def ES2_def ED_def ED2_def by (erule endswith_two)+
  have two: "replicate (3 - 1) q = [q, q]" for q :: char
    by (simp add: numeral_3_eq_3)
  have one: "k = Single \<or> k = Double \<longrightarrow>
            fst (fm_fix_line lines n) = lines[nat (n - 1) := l @ quote_str k]"
    using sk sel' fx by (cases A; cases B; cases C; cases D; cases k; simp)
  have ins: "0 < n \<and> n \<le> int (length lines) \<Longrightarrow>
      (take (nat n) lines @ q # drop (nat n) lines)[nat (n - 1) := l] =
         take (nat n) lines @ q # drop (nat n) lines" for q
    unfolding l_def by (rule insert_keeps_line) auto
  have three: "(k = TripleSingle \<or> k = TripleDouble) \<and> 0 < n \<and> n \<le> int (length lines) \<longrightarrow>
            fst (fm_fix_line lines n) =
              (if endswith l [hd (quote_str k)]
               then lines[nat (n - 1) := l @ [hd (quote_str k), hd (quote_str k)]]
               else take (nat n) lines @ quote_str k # drop (nat n) lines)"
  proof
    assume a: "(k = TripleSingle \<or> k = TripleDouble) \<and> 0 < n \<and> n \<le> int (length lines)"
    then have i: "0 < n \<and> n \<le> int (length lines)" by simp
    from a consider (ts) "k = TripleSingle" | (td) "k = TripleDouble" by blast
    then show "fst (fm_fix_line lines n) =
              (if endswith l [hd (quote_str k)]
               then lines[nat (n - 1) := l @ [hd (quote_str k), hd (quote_str k)]]
               else take (nat n) lines @ quote_str k # drop (nat n) lines)"
    proof cases
      case ts
      with sk sel' have c: "\<not> A \<and> \<not> B \<and> C"
        by (cases A; cases B; cases C; cases D; simp)
      with fx have f: "fst (fm_fix_line lines n) =
         (if ES2 \<or> ES
          then lines[nat (n - 1) := l @ replicate (3 - (if ES then 1 else 2)) SQ]
          else take (nat n) lines @ [SQ, SQ, SQ] # drop (nat n) lines)"
        by (simp add: ins[OF i])
      have q: "hd (quote_str k) = SQ" "quote_str k = [SQ, SQ, SQ]" using ts by simp_all
      show ?thesis unfolding q f
        using e2(1) ES_def by (cases ES; cases ES2; simp add: numeral_2_eq_2)
    next
      case td
      with sk sel' have c: "\<not> A \<and> \<not> B \<and> \<not> C \<and> D"
        by (cases A; cases B; cases C; cases D; simp)
      with fx have f: "fst (fm_fix_line lines n) =
         (if ED2 \<or> ED
          then lines[nat (n - 1) := l @ replicate (3 - (if ED then 1 else 2)) DQ]
          else take (nat n) lines @ [DQ, DQ, DQ] # drop (nat n) lines)"
        by (simp add: ins[OF i])
      have q: "hd (quote_str k) = DQ" "quote_str k = [DQ, DQ, DQ]" using td by simp_all
      show ?thesis unfolding q f
        using e2(2) ED_def by (cases ED; cases ED2; simp add: numeral_2_eq_2)
    qed
  qed
  from one three show ?thesis by (simp only: l_def)
qed


lemma split_nl_not_empty: "split_nl s \<noteq> []"
  by (induction s) (auto split: list.splits)

lemma join_split_nl: "join_nl (split_nl s) = s"
proof (induction s)
  case Nil
  then show ?case by simp
next
  case (Cons c cs)
  obtain l ls where s: "split_nl cs = l # ls"
    using split_nl_not_empty[of cs] by (cases "split_nl cs") auto
  show ?case
  proof (cases "c = NL")
    case True
    with Cons s show ?thesis by simp
  next
    case False
    with Cons s show ?thesis by (cases ls) auto
  qed
qed

lemma fix_unterminated_string_out_of_range:
  "n \<le> 0 \<or> int (length (split_nl code)) < n \<Longrightarrow> fix_unterminated_string cmp code n = code"
  unfolding fix_unterminated_string_def Let_def by auto

lemma fix_unterminated_string_none:
  assumes "0 < n" "n \<le> int (length (split_nl code))"
    and sel: "selected_kind (split_nl code ! nat (n - 1)) = None"
  shows "fix_unterminated_string cmp code n =
      (if is_syntax_valid cmp
            (join_nl ((split_nl code)[nat (n - 1) := split_nl code ! nat (n - 1) @ [SQ]]))
         then join_nl ((split_nl code)[nat (n - 1) := split_nl code ! nat (n - 1) @ [SQ]])
       else if is_syntax_valid cmp
            (join_nl ((split_nl code)[nat (n - 1) := split_nl code ! nat (n - 1) @ [DQ]]))
         then join_nl ((split_nl code)[nat (n - 1) := split_nl code ! nat (n - 1) @ [DQ]])
       else if is_syntax_valid cmp (code @ [SQ]) then code @ [SQ]
       else if is_syntax_valid cmp (code @ [DQ]) then code @ [DQ]
       else code)"
proof -
  define l where "l = split_nl code ! nat (n - 1)"
  define A where "A \<longleftrightarrow> str_count l [SQ] mod 2 = 1 \<and> str_count l [DQ] mod 2 = 0"
  define B where "B \<longleftrightarrow> str_count l [DQ] mod 2 = 1 \<and> str_count l [SQ] mod 2 = 0"
  define C where "C \<longleftrightarrow> str_count l [SQ, SQ, SQ] mod 2 = 1"
  define D where "D \<longleftrightarrow> str_count l [DQ, DQ, DQ] mod 2 = 1"
  define V1 where "V1 \<longleftrightarrow> is_syntax_valid cmp (join_nl ((split_nl code)[nat (n - 1) := l @ [SQ]]))"
  define V2 where "V2 \<longleftrightarrow> is_syntax_valid cmp (join_nl ((split_nl code)[nat (n - 1) := l @ [DQ]]))"
  define V3 where "V3 \<longleftrightarrow> is_syntax_valid cmp (code @ [SQ])"
  define V4 where "V4 \<longleftrightarrow> is_syntax_valid cmp (code @ [DQ])"
  have sk: "selected_kind l =
           (if A then Some Single else if B then Some Double
            else if C then Some TripleSingle else if D then Some TripleDouble else None)"
    unfolding A_def B_def C_def D_def by (rule selected_kind_cases)
  have r: "\<not> (n \<le> 0 \<or> n > int (length (split_nl code)))" using assms(1,2) by simp
  have fx: "fix_unterminated_string cmp code n =
      (if A then join_nl ((split_nl code)[nat (n - 1) := l @ [SQ]])
       else if B then join_nl ((split_nl code)[nat (n - 1) := l @ [DQ]])
       else if C then join_nl ((split_nl code)[nat (n - 1) := l @ [SQ, SQ, SQ]])
       else if D then join_nl ((split_nl code)[nat (n - 1) := l @ [DQ, DQ, DQ]])
       else if V1 then join_nl ((split_nl code)[nat (n - 1) := l @ [SQ]])
       else if V2 then join_nl ((split_nl code)[nat (n - 1) := l @ [DQ]])
       else if V3 then code @ [SQ]
       else if V4 then code @ [DQ]
       else join_nl (split_nl code))"
    unfolding fix_unterminated_string_def Let_def A_def B_def C_def D_def l_def
      V1_def V2_def V3_def V4_def
    by (simp only: r if_False)
  from sel have sel': "selected_kind l = None" by (simp only: l_def)
  from sk sel' have none: "\<not> A \<and> \<not> B \<and> \<not> C \<and> \<not> D"
    by (cases A; cases B; cases C; cases D; simp)
  have "fix_unterminated_string cmp code n =
      (if V1 then join_nl ((split_nl code)[nat (n - 1) := l @ [SQ]])
       else if V2 then join_nl ((split_nl code)[nat (n - 1) := l @ [DQ]])
       else if V3 then code @ [SQ]
       else if V4 then code @ [DQ]
       else code)"
    unfolding fx using none by (simp add: join_split_nl)
  then show ?thesis unfolding V1_def V2_def V3_def V4_def l_def .
qed

lemma fm_fix_line_none:
  assumes sel: "fm_selected_kind (lines ! nat (n - 1)) = None"
  shows "fst (fm_fix_line lines n) =
           (if str_count (lines ! nat (n - 1)) [SQ] > str_count (lines ! nat (n - 1)) [DQ]
            then lines[nat (n - 1) := lines ! nat (n - 1) @ [SQ]]
            else lines[nat (n - 1) := lines ! nat (n - 1) @ [DQ]])"
proof -
  define l where "l = lines ! nat (n - 1)"
  define A where "A \<longleftrightarrow> (int (str_count l [SQ]) - int (str_count l [SQ, SQ, SQ]) * 3) mod 2 = 1"
  define B where "B \<longleftrightarrow> (int (str_count l [DQ]) - int (str_count l [DQ, DQ, DQ]) * 3) mod 2 = 1"
  define C where "C \<longleftrightarrow> int (str_count l [SQ, SQ, SQ]) mod 2 = 1"
  define D where "D \<longleftrightarrow> int (str_count l [DQ, DQ, DQ]) mod 2 = 1"
  define G where "G \<longleftrightarrow> str_count l [SQ] > str_count l [DQ]"
  define X where "X =
         (if endswith l [SQ, SQ] \<or> endswith l [SQ]
          then lines[nat (n - 1) := l @ replicate (3 - (if endswith l [SQ] then 1 else 2)) SQ]
          else (take (nat n) lines @ [[SQ, SQ, SQ]] @ drop (nat n) lines)[nat (n - 1) := l])"
  define Y where "Y =
         (if endswith l [DQ, DQ] \<or> endswith l [DQ]
          then lines[nat (n - 1) := l @ replicate (3 - (if endswith l [DQ] then 1 else 2)) DQ]
          else (take (nat n) lines @ [[DQ, DQ, DQ]] @ drop (nat n) lines)[nat (n - 1) := l])"
  have sk: "fm_selected_kind l =
           (if A then Some Single else if B then Some Double
            else if C then Some TripleSingle else if D then Some TripleDouble else None)"
    unfolding A_def B_def C_def D_def by (rule fm_selected_kind_cases)
  have fx: "fst (fm_fix_line lines n) =
      (if A then lines[nat (n - 1) := l @ [SQ]]
       else if B then lines[nat (n - 1) := l @ [DQ]]
       else if C then X
       else if D then Y
       else if G then lines[nat (n - 1) := l @ [SQ]]
       else lines[nat (n - 1) := l @ [DQ]])"
    unfolding A_def B_def C_def D_def l_def G_def X_def Y_def
    by (rule fm_fix_line_cases)
  from sel have sel': "fm_selected_kind l = None" by (simp only: l_def)
  from sk sel' have none: "\<not> A \<and> \<not> B \<and> \<not> C \<and> \<not> D"
    by (cases A; cases B; cases C; cases D; simp)
  have "fst (fm_fix_line lines n) =
      (if G then lines[nat (n - 1) := l @ [SQ]] else lines[nat (n - 1) := l @ [DQ]])"
    unfolding fx using none by simp
  then show ?thesis unfolding G_def l_def .
qed

lemma selected_kind_parity:
  fixes l :: string
  defines "sq \<equiv> str_count l [SQ]" and "dq \<equiv> str_count l [DQ]"
    and "ts \<equiv> str_count l [SQ, SQ, SQ]" and "td \<equiv> str_count l [DQ, DQ, DQ]"
  shows "(selected_kind l = Some Single \<longleftrightarrow> odd sq \<and> even dq)
       \<and> (selected_kind l = Some Double \<longleftrightarrow> odd dq \<and> even sq)
       \<and> (selected_kind l = Some TripleSingle \<longleftrightarrow> (odd sq \<longleftrightarrow> odd dq) \<and> odd ts)
       \<and> (selected_kind l = Some TripleDouble \<longleftrightarrow> (odd sq \<longleftrightarrow> odd dq) \<and> even ts \<and> odd td)
       \<and> (selected_kind l = None \<longleftrightarrow> (odd sq \<longleftrightarrow> odd dq) \<and> even ts \<and> even td)"
proof -
  define A where "A \<longleftrightarrow> str_count l [SQ] mod 2 = 1 \<and> str_count l [DQ] mod 2 = 0"
  define B where "B \<longleftrightarrow> str_count l [DQ] mod 2 = 1 \<and> str_count l [SQ] mod 2 = 0"
  define C where "C \<longleftrightarrow> str_count l [SQ, SQ, SQ] mod 2 = 1"
  define D where "D \<longleftrightarrow> str_count l [DQ, DQ, DQ] mod 2 = 1"
  have sk: "selected_kind l =
           (if A then Some Single else if B then Some Double
            else if C then Some TripleSingle else if D then Some TripleDouble else None)"
    unfolding A_def B_def C_def D_def by (rule selected_kind_cases)
  have a: "A \<longleftrightarrow> odd sq \<and> even dq" unfolding A_def sq_def dq_def by presburger
  have b: "B \<longleftrightarrow> odd dq \<and> even sq" unfolding B_def sq_def dq_def by presburger
  have c: "C \<longleftrightarrow> odd ts" unfolding C_def ts_def by presburger
  have d: "D \<longleftrightarrow> odd td" unfolding D_def td_def by presburger
  show ?thesis
    unfolding sk using a b c d by (cases A; cases B; cases C; cases D; auto)
qed

lemma fm_selected_kind_parity:
  fixes l :: string
  defines "ts \<equiv> int (str_count l [SQ, SQ, SQ])" and "td \<equiv> int (str_count l [DQ, DQ, DQ])"
  defines "sq \<equiv> int (str_count l [SQ]) - ts * 3" and "dq \<equiv> int (str_count l [DQ]) - td * 3"
  shows "(fm_selected_kind l = Some Single \<longleftrightarrow> odd sq)
       \<and> (fm_selected_kind l = Some Double \<longleftrightarrow> even sq \<and> odd dq)
       \<and> (fm_selected_kind l = Some TripleSingle \<longleftrightarrow> even sq \<and> even dq \<and> odd ts)
       \<and> (fm_selected_kind l = Some TripleDouble \<longleftrightarrow> even sq \<and> even dq \<and> even ts \<and> odd td)
       \<and> (fm_selected_kind l = None \<longleftrightarrow> even sq \<and> even dq \<and> even ts \<and> even td)"
proof -
  define A where "A \<longleftrightarrow> (int (str_count l [SQ]) - int (str_count l [SQ, SQ, SQ]) * 3) mod 2 = 1"
  define B where "B \<longleftrightarrow> (int (str_count l [DQ]) - int (str_count l [DQ, DQ, DQ]) * 3) mod 2 = 1"
  define C where "C \<longleftrightarrow> int (str_count l [SQ, SQ, SQ]) mod 2 = 1"
  define D where "D \<longleftrightarrow> int (str_count l [DQ, DQ, DQ]) mod 2 = 1"
  have sk: "fm_selected_kind l =
           (if A then Some Single else if B then Some Double
            else if C then Some TripleSingle else if D then Some TripleDouble else None)"
    unfolding A_def B_def C_def D_def by (rule fm_selected_kind_cases)
  have a: "A \<longleftrightarrow> odd sq" unfolding A_def sq_def ts_def by presburger
  have b: "B \<longleftrightarrow> odd dq" unfolding B_def dq_def td_def by presburger
  have c: "C \<longleftrightarrow> odd ts" unfolding C_def ts_def by presburger
  have d: "D \<longleftrightarrow> odd td" unfolding D_def td_def by presburger
  show ?thesis
    unfolding sk using a b c d by (cases A; cases B; cases C; cases D; auto)
qed


text \<open>
  C5 (as amended). On a line number out of range \<open>fix_unterminated_string\<close> of
  \<open>api_consistency\<close> returns the text as it is. On every line in range each fixer counts
  the four quote kinds and acts on one kind, tested in the order single, double,
  triple-single, triple-double.

  \<open>api_consistency.fix_unterminated_string\<close> uses the plain counts: it chooses single when
  the single count is odd and the double count even, double when the double count is odd
  and the single count even, and otherwise (the two counts have the same parity)
  triple-single when its count is odd, then triple-double when its count is odd; the
  chosen quote is appended to the line. When no kind is chosen it tries, in this order,
  a single and a double quote at the end of the line and then at the end of the text,
  returns the first variant the compiler accepts, and the text as it is when there is
  none; here a double quote can be appended although the single count is odd.

  \<open>fix_module.fix_string_literals\<close> subtracts three times the triple counts from the
  single-character counts: it chooses single when the adjusted single count is odd,
  whatever the double count, then double when the adjusted double count is odd, then
  triple-single and triple-double when their counts are odd. A chosen single or double
  quote is appended; a chosen triple kind is completed by two quotes when the line ends
  with that quote and put on a new line behind the blamed one otherwise. When no kind is
  chosen it appends, as a best guess, a single quote if the line has more single than
  double quotes, and a double quote otherwise.
\<close>

theorem quote_kind_chosen_by_the_fixers:
  "(n \<le> 0 \<or> int (length (split_nl code)) < n \<longrightarrow> fix_unterminated_string cmp code n = code)
 \<and> (0 < n \<and> n \<le> int (length (split_nl code)) \<and> i = nat (n - 1) \<and> l = split_nl code ! i \<longrightarrow>
      fix_unterminated_string cmp code n =
        (case selected_kind l of
           Some k \<Rightarrow> join_nl ((split_nl code)[i := l @ quote_str k])
         | None \<Rightarrow>
             if is_syntax_valid cmp (join_nl ((split_nl code)[i := l @ [SQ]]))
               then join_nl ((split_nl code)[i := l @ [SQ]])
             else if is_syntax_valid cmp (join_nl ((split_nl code)[i := l @ [DQ]]))
               then join_nl ((split_nl code)[i := l @ [DQ]])
             else if is_syntax_valid cmp (code @ [SQ]) then code @ [SQ]
             else if is_syntax_valid cmp (code @ [DQ]) then code @ [DQ]
             else code))
 \<and> (selected_kind l = Some Single \<longleftrightarrow> odd (str_count l [SQ]) \<and> even (str_count l [DQ]))
 \<and> (selected_kind l = Some Double \<longleftrightarrow> odd (str_count l [DQ]) \<and> even (str_count l [SQ]))
 \<and> (selected_kind l = Some TripleSingle \<longleftrightarrow>
      (odd (str_count l [SQ]) \<longleftrightarrow> odd (str_count l [DQ])) \<and> odd (str_count l [SQ, SQ, SQ]))
 \<and> (selected_kind l = Some TripleDouble \<longleftrightarrow>
      (odd (str_count l [SQ]) \<longleftrightarrow> odd (str_count l [DQ])) \<and> even (str_count l [SQ, SQ, SQ])
        \<and> odd (str_count l [DQ, DQ, DQ]))
 \<and> (0 < n \<and> n \<le> int (length lines) \<and> i = nat (n - 1) \<and> l = lines ! i \<longrightarrow>
      fst (fm_fix_line lines n) =
        (case fm_selected_kind l of
           Some Single \<Rightarrow> lines[i := l @ [SQ]]
         | Some Double \<Rightarrow> lines[i := l @ [DQ]]
         | Some TripleSingle \<Rightarrow>
             if endswith l [SQ] then lines[i := l @ [SQ, SQ]]
             else take (nat n) lines @ [SQ, SQ, SQ] # drop (nat n) lines
         | Some TripleDouble \<Rightarrow>
             if endswith l [DQ] then lines[i := l @ [DQ, DQ]]
             else take (nat n) lines @ [DQ, DQ, DQ] # drop (nat n) lines
         | None \<Rightarrow>
             if str_count l [SQ] > str_count l [DQ] then lines[i := l @ [SQ]]
             else lines[i := l @ [DQ]]))
 \<and> (fm_selected_kind l = Some Single \<longleftrightarrow>
      odd (int (str_count l [SQ]) - int (str_count l [SQ, SQ, SQ]) * 3))
 \<and> (fm_selected_kind l = Some Double \<longleftrightarrow>
      even (int (str_count l [SQ]) - int (str_count l [SQ, SQ, SQ]) * 3)
        \<and> odd (int (str_count l [DQ]) - int (str_count l [DQ, DQ, DQ]) * 3))
 \<and> (fm_selected_kind l = Some TripleSingle \<longleftrightarrow>
      even (int (str_count l [SQ]) - int (str_count l [SQ, SQ, SQ]) * 3)
        \<and> even (int (str_count l [DQ]) - int (str_count l [DQ, DQ, DQ]) * 3)
        \<and> odd (int (str_count l [SQ, SQ, SQ])))
 \<and> (fm_selected_kind l = Some TripleDouble \<longleftrightarrow>
      even (int (str_count l [SQ]) - int (str_count l [SQ, SQ, SQ]) * 3)
        \<and> even (int (str_count l [DQ]) - int (str_count l [DQ, DQ, DQ]) * 3)
        \<and> even (int (str_count l [SQ, SQ, SQ])) \<and> odd (int (str_count l [DQ, DQ, DQ])))"
proof -
  have one: "n \<le> 0 \<or> int (length (split_nl code)) < n \<longrightarrow> fix_unterminated_string cmp code n = code"
    using fix_unterminated_string_out_of_range[of n code cmp] by blast
  have two: "0 < n \<and> n \<le> int (length (split_nl code)) \<and> i = nat (n - 1) \<and> l = split_nl code ! i \<longrightarrow>
      fix_unterminated_string cmp code n =
        (case selected_kind l of
           Some k \<Rightarrow> join_nl ((split_nl code)[i := l @ quote_str k])
         | None \<Rightarrow>
             if is_syntax_valid cmp (join_nl ((split_nl code)[i := l @ [SQ]]))
               then join_nl ((split_nl code)[i := l @ [SQ]])
             else if is_syntax_valid cmp (join_nl ((split_nl code)[i := l @ [DQ]]))
               then join_nl ((split_nl code)[i := l @ [DQ]])
             else if is_syntax_valid cmp (code @ [SQ]) then code @ [SQ]
             else if is_syntax_valid cmp (code @ [DQ]) then code @ [DQ]
             else code)"
  proof
    assume a: "0 < n \<and> n \<le> int (length (split_nl code)) \<and> i = nat (n - 1) \<and> l = split_nl code ! i"
    then have r: "0 < n" "n \<le> int (length (split_nl code))"
      and i: "i = nat (n - 1)" and l: "l = split_nl code ! nat (n - 1)" by simp_all
    show "fix_unterminated_string cmp code n =
        (case selected_kind l of
           Some k \<Rightarrow> join_nl ((split_nl code)[i := l @ quote_str k])
         | None \<Rightarrow>
             if is_syntax_valid cmp (join_nl ((split_nl code)[i := l @ [SQ]]))
               then join_nl ((split_nl code)[i := l @ [SQ]])
             else if is_syntax_valid cmp (join_nl ((split_nl code)[i := l @ [DQ]]))
               then join_nl ((split_nl code)[i := l @ [DQ]])
             else if is_syntax_valid cmp (code @ [SQ]) then code @ [SQ]
             else if is_syntax_valid cmp (code @ [DQ]) then code @ [DQ]
             else code)"
    proof (cases "selected_kind l")
      case None
      then have "selected_kind (split_nl code ! nat (n - 1)) = None" unfolding l .
      from fix_unterminated_string_none[OF r this, of cmp] None show ?thesis
        unfolding i l by simp
    next
      case (Some k)
      then have "selected_kind (split_nl code ! nat (n - 1)) = Some k" unfolding l .
      from fix_unterminated_string_selected[OF r this, of cmp] Some show ?thesis
        unfolding i l by simp
    qed
  qed
  note three = selected_kind_parity[of l]
  have four: "0 < n \<and> n \<le> int (length lines) \<and> i = nat (n - 1) \<and> l = lines ! i \<longrightarrow>
      fst (fm_fix_line lines n) =
        (case fm_selected_kind l of
           Some Single \<Rightarrow> lines[i := l @ [SQ]]
         | Some Double \<Rightarrow> lines[i := l @ [DQ]]
         | Some TripleSingle \<Rightarrow>
             if endswith l [SQ] then lines[i := l @ [SQ, SQ]]
             else take (nat n) lines @ [SQ, SQ, SQ] # drop (nat n) lines
         | Some TripleDouble \<Rightarrow>
             if endswith l [DQ] then lines[i := l @ [DQ, DQ]]
             else take (nat n) lines @ [DQ, DQ, DQ] # drop (nat n) lines
         | None \<Rightarrow>
             if str_count l [SQ] > str_count l [DQ] then lines[i := l @ [SQ]]
             else lines[i := l @ [DQ]])"
  proof
    assume a: "0 < n \<and> n \<le> int (length lines) \<and> i = nat (n - 1) \<and> l = lines ! i"
    then have r: "0 < n \<and> n \<le> int (length lines)"
      and i: "i = nat (n - 1)" and l: "l = lines ! nat (n - 1)" by simp_all
    show "fst (fm_fix_line lines n) =
        (case fm_selected_kind l of
           Some Single \<Rightarrow> lines[i := l @ [SQ]]
         | Some Double \<Rightarrow> lines[i := l @ [DQ]]
         | Some TripleSingle \<Rightarrow>
             if endswith l [SQ] then lines[i := l @ [SQ, SQ]]
             else take (nat n) lines @ [SQ, SQ, SQ] # drop (nat n) lines
         | Some TripleDouble \<Rightarrow>
             if endswith l [DQ] then lines[i := l @ [DQ, DQ]]
             else take (nat n) lines @ [DQ, DQ, DQ] # drop (nat n) lines
         | None \<Rightarrow>
             if str_count l [SQ] > str_count l [DQ] then lines[i := l @ [SQ]]
             else lines[i := l @ [DQ]])"
    proof (cases "fm_selected_kind l")
      case None
      then have "fm_selected_kind (lines ! nat (n - 1)) = None" unfolding l .
      from fm_fix_line_none[OF this] None show ?thesis
        unfolding i l by simp
    next
      case (Some k)
      then have s: "fm_selected_kind (lines ! nat (n - 1)) = Some k" unfolding l .
      from fm_fix_line_selected[OF s] r Some show ?thesis
        unfolding i l by (cases k) simp_all
    qed
  qed
  note five = fm_selected_kind_parity[of l]
  note s1 = three[THEN conjunct1]
    and s2 = three[THEN conjunct2, THEN conjunct1]
    and s3 = three[THEN conjunct2, THEN conjunct2, THEN conjunct1]
    and s4 = three[THEN conjunct2, THEN conjunct2, THEN conjunct2, THEN conjunct1]
  note f1 = five[THEN conjunct1]
    and f2 = five[THEN conjunct2, THEN conjunct1]
    and f3 = five[THEN conjunct2, THEN conjunct2, THEN conjunct1]
    and f4 = five[THEN conjunct2, THEN conjunct2, THEN conjunct2, THEN conjunct1]
  show ?thesis
    by (intro conjI) (fact one two four s1 s2 s3 s4 f1 f2 f3 f4)+
qed

lemma quote_samples:
  "split_nl docstring_text = [''x = '' @ [DQ, DQ, DQ] @ ''start'', docstring_line, []]
 \<and> split_nl escaped_text = [''x = '' @ [DQ, DQ, DQ] @ ''start'', escaped_line, []]
 \<and> split_nl (apostrophe_line @ [NL]) = [apostrophe_line, []]
 \<and> split_nl (backslash_line @ [NL]) = [backslash_line, []]
 \<and> selected_kind docstring_line = Some Single
 \<and> selected_kind escaped_line = Some Double
 \<and> selected_kind apostrophe_line = None
 \<and> fm_selected_kind docstring_line = Some Single
 \<and> fm_selected_kind escaped_line = Some TripleDouble
 \<and> fm_selected_kind backslash_line = None
 \<and> \<not> endswith escaped_line [DQ]
 \<and> str_count backslash_line [SQ] > str_count backslash_line [DQ]"
  by code_simp

lemma quote_sample_verdicts:
  "sample_compiler docstring_text ''<string>'' = unterminated_at_2 ''<string>''
 \<and> sample_compiler escaped_text ''<string>'' = unterminated_at_2 ''<string>''
 \<and> sample_compiler (apostrophe_line @ [NL]) ''<string>'' = unterminated_at_1 ''<string>''
 \<and> sample_compiler (backslash_line @ [NL]) ''<string>'' = unterminated_at_1 ''<string>''
 \<and> \<not> is_syntax_valid sample_compiler (join_nl [apostrophe_line @ [SQ], []])
 \<and> is_syntax_valid sample_compiler (join_nl [apostrophe_line @ [DQ], []])"
  by code_simp

theorem quote_kind_chosen_by_the_fixers_witness:
  "sample_compiler docstring_text ''<string>'' = unterminated_at_2 ''<string>''
 \<and> sample_compiler escaped_text ''<string>'' = unterminated_at_2 ''<string>''
 \<and> sample_compiler (apostrophe_line @ [NL]) ''<string>'' = unterminated_at_1 ''<string>''
 \<and> sample_compiler (backslash_line @ [NL]) ''<string>'' = unterminated_at_1 ''<string>''
 \<and> fix_unterminated_string sample_compiler docstring_text 0 = docstring_text
 \<and> fix_unterminated_string sample_compiler docstring_text 2 =
     join_nl [''x = '' @ [DQ, DQ, DQ] @ ''start'', docstring_line @ [SQ], []]
 \<and> fix_unterminated_string sample_compiler escaped_text 2 =
     join_nl [''x = '' @ [DQ, DQ, DQ] @ ''start'', escaped_line @ [DQ], []]
 \<and> fix_unterminated_string sample_compiler (apostrophe_line @ [NL]) 1 =
     join_nl [apostrophe_line @ [DQ], []]
 \<and> fst (fm_fix_line (split_nl docstring_text) 2) =
     [''x = '' @ [DQ, DQ, DQ] @ ''start'', docstring_line @ [SQ], []]
 \<and> fst (fm_fix_line (split_nl escaped_text) 2) =
     [''x = '' @ [DQ, DQ, DQ] @ ''start'', escaped_line, [DQ, DQ, DQ], []]
 \<and> fst (fm_fix_line (split_nl (backslash_line @ [NL])) 1) = [backslash_line @ [SQ], []]"
proof -
  note s = quote_samples
  note v = quote_sample_verdicts
  have zero: "fix_unterminated_string sample_compiler docstring_text 0 = docstring_text"
    using quote_kind_chosen_by_the_fixers[where n = 0 and code = docstring_text
            and cmp = sample_compiler, THEN conjunct1]
    by simp
  have one: "fix_unterminated_string sample_compiler docstring_text 2 =
     join_nl [''x = '' @ [DQ, DQ, DQ] @ ''start'', docstring_line @ [SQ], []]"
    using quote_kind_chosen_by_the_fixers[where n = 2 and code = docstring_text
            and cmp = sample_compiler and i = 1 and l = docstring_line,
            THEN conjunct2, THEN conjunct1] s
    by simp
  have two: "fix_unterminated_string sample_compiler escaped_text 2 =
     join_nl [''x = '' @ [DQ, DQ, DQ] @ ''start'', escaped_line @ [DQ], []]"
    using quote_kind_chosen_by_the_fixers[where n = 2 and code = escaped_text
            and cmp = sample_compiler and i = 1 and l = escaped_line,
            THEN conjunct2, THEN conjunct1] s
    by simp
  have three: "fix_unterminated_string sample_compiler (apostrophe_line @ [NL]) 1 =
     join_nl [apostrophe_line @ [DQ], []]"
    using quote_kind_chosen_by_the_fixers[where n = 1 and code = "apostrophe_line @ [NL]"
            and cmp = sample_compiler and i = 0 and l = apostrophe_line,
            THEN conjunct2, THEN conjunct1] s v
    by simp
  have four: "fst (fm_fix_line (split_nl docstring_text) 2) =
     [''x = '' @ [DQ, DQ, DQ] @ ''start'', docstring_line @ [SQ], []]"
    using quote_kind_chosen_by_the_fixers[where n = 2 and lines = "split_nl docstring_text"
            and i = 1 and l = docstring_line,
            THEN conjunct2, THEN conjunct2, THEN conjunct2, THEN conjunct2, THEN conjunct2,
            THEN conjunct2, THEN conjunct1] s
    by simp
  have five: "fst (fm_fix_line (split_nl escaped_text) 2) =
     [''x = '' @ [DQ, DQ, DQ] @ ''start'', escaped_line, [DQ, DQ, DQ], []]"
    using quote_kind_chosen_by_the_fixers[where n = 2 and lines = "split_nl escaped_text"
            and i = 1 and l = escaped_line,
            THEN conjunct2, THEN conjunct2, THEN conjunct2, THEN conjunct2, THEN conjunct2,
            THEN conjunct2, THEN conjunct1] s
    by simp
  have six: "fst (fm_fix_line (split_nl (backslash_line @ [NL])) 1) = [backslash_line @ [SQ], []]"
    using quote_kind_chosen_by_the_fixers[where n = 1 and lines = "split_nl (backslash_line @ [NL])"
            and i = 0 and l = backslash_line,
            THEN conjunct2, THEN conjunct2, THEN conjunct2, THEN conjunct2, THEN conjunct2,
            THEN conjunct2, THEN conjunct1] s
    by simp
  from v zero one two three four five six show ?thesis by blast
qed

text \<open>
  The claim as stated fails on the line \<open>doc""" + "it's\<close>: read as the specification
  words it, the analysis chooses the triple double quote; both fixers append a single
  quote. It also fails on the line \<open>x = "it's\<close>, where the single count is odd and
  \<open>fix_unterminated_string\<close> appends a double quote.
\<close>

theorem quote_priority_counterexample:
  "split_nl docstring_text ! 1 = docstring_line
 \<and> spec_analyze_line docstring_line = Some TripleDouble
 \<and> fix_unterminated_string sample_compiler docstring_text 2 =
     ''x = '' @ [DQ, DQ, DQ] @ ''start'' @ [NL] @ docstring_line @ [SQ] @ [NL]
 \<and> fst (fm_fix_line (split_nl docstring_text) 2) =
     [''x = '' @ [DQ, DQ, DQ] @ ''start'', docstring_line @ [SQ], []]
 \<and> str_count apostrophe_line [SQ] = 1
 \<and> fix_unterminated_string sample_compiler (apostrophe_line @ [NL]) 1
     = apostrophe_line @ [DQ, NL]"
  by code_simp

section \<open>The router repair\<close>

lemma startswith_append: "startswith s (p @ q) \<Longrightarrow> startswith s p"
  by (induction s p rule: startswith.induct) auto

lemma startswith_contains: "startswith s p \<Longrightarrow> contains s p"
  by (cases s; cases p) auto

lemma contains_drop: "contains (drop k s) p \<Longrightarrow> contains s p"
proof (induction s arbitrary: k)
  case Nil
  then show ?case by simp
next
  case (Cons c cs)
  show ?case
  proof (cases k)
    case 0
    with Cons.prems show ?thesis by simp
  next
    case (Suc j)
    with Cons.prems have "contains (drop j cs) p" by simp
    from Cons.IH[OF this] show ?thesis by simp
  qed
qed

lemma contains_dropWhile: "contains (dropWhile P s) p \<Longrightarrow> contains s p"
  using contains_drop[of "length (takeWhile P s)" s p] by (simp add: dropWhile_eq_drop)

lemma router_def_at_contains: "router_def_at cs \<Longrightarrow> contains cs ''APIRouter''"
proof -
  assume a: "router_def_at cs"
  define r where "r = dropWhile is_space (drop 6 cs)"
  from a have "startswith (dropWhile is_space (drop 1 r)) (''APIRouter'' @ ''('')"
    by (simp add: router_def_at_def r_def Let_def)
  then have "startswith (dropWhile is_space (drop 1 r)) ''APIRouter''"
    by (rule startswith_append)
  then have "contains (dropWhile is_space (drop 1 r)) ''APIRouter''"
    by (rule startswith_contains)
  then have "contains (drop 1 r) ''APIRouter''" by (rule contains_dropWhile)
  then have "contains r ''APIRouter''" by (rule contains_drop)
  then have "contains (drop 6 cs) ''APIRouter''" unfolding r_def by (rule contains_dropWhile)
  then show ?thesis by (rule contains_drop)
qed

lemma has_router_def_contains: "has_router_def s \<Longrightarrow> contains s ''APIRouter''"
proof (induction s)
  case Nil
  then show ?case by simp
next
  case (Cons c cs)
  from Cons.prems have "router_def_at (c # cs) \<or> has_router_def cs" by simp
  then show ?case
  proof
    assume "router_def_at (c # cs)"
    then show ?thesis by (rule router_def_at_contains)
  next
    assume "has_router_def cs"
    from Cons.IH[OF this] show ?thesis by simp
  qed
qed

lemma sub_scan_length: "length s \<le> length (sub_scan b s)"
proof (induction s arbitrary: b)
  case Nil
  then show ?case by simp
next
  case (Cons c cs)
  have "length cs \<le> length (sub_scan True cs)" and "length cs \<le> length (sub_scan False cs)"
    using Cons.IH by simp_all
  then show ?case by (simp del: startswith.simps)
qed

lemma sub_scan_same: "length (sub_scan b s) \<le> length s \<Longrightarrow> sub_scan b s = s"
proof (induction s arbitrary: b)
  case Nil
  then show ?case by (cases b) auto
next
  case (Cons c cs)
  consider (stop) "b" "c = NL"
    | (inside) "sub_scan b (c # cs) = c # sub_scan True cs"
    | (outside) "sub_scan b (c # cs) = c # sub_scan False cs"
    by (cases b; cases "c = NL"; cases "startswith (c # cs) ''from fastapi import ''")
       (simp_all del: startswith.simps)
  then show ?case
  proof cases
    case stop
    with Cons.prems sub_scan_length[of cs False] show ?thesis by simp
  next
    case inside
    with Cons.prems have "length (sub_scan True cs) \<le> length cs" by simp
    from Cons.IH[OF this] inside show ?thesis by simp
  next
    case outside
    with Cons.prems have "length (sub_scan False cs) \<le> length cs" by simp
    from Cons.IH[OF this] outside show ?thesis by simp
  qed
qed

lemma sub_fastapi_import_grows:
  "sub_fastapi_import c = c \<or> length c < length (sub_fastapi_import c)"
  unfolding sub_fastapi_import_def using sub_scan_same[of False c] by fastforce

lemma insert_at_length: "length (insert_at p ins c) = length c + length ins"
  by (simp add: insert_at_def)

lemma add_router_import_grows:
  assumes "add_router_import c = (c1, f1)"
  shows "f1 \<noteq> [] \<and> length c \<le> length c1
       \<and> (length c1 \<le> length c \<longrightarrow> last_import_end c \<noteq> None)"
proof (cases "last_import_end c")
  case None
  with assms show ?thesis by (auto simp: add_router_import_def)
next
  case (Some p)
  show ?thesis
  proof (cases "contains c ''from fastapi import''")
    case True
    with assms Some have "c1 = sub_fastapi_import c" and "f1 = [''Added APIRouter import'']"
      by (auto simp: add_router_import_def)
    with Some sub_fastapi_import_grows[of c] show ?thesis by auto
  next
    case False
    with assms Some show ?thesis by (auto simp: add_router_import_def insert_at_length)
  qed
qed

lemma add_router_definition_grows:
  assumes "add_router_definition (c1, f1) = (c2, f2)"
  shows "length c1 \<le> length c2 \<and> (f1 \<noteq> [] \<longrightarrow> f2 \<noteq> [])
       \<and> (last_import_end c1 \<noteq> None \<longrightarrow> length c1 < length c2 \<and> f2 \<noteq> [])"
proof (cases "last_import_end c1")
  case None
  with assms show ?thesis
    by (auto simp: add_router_definition_def router_def_text_def split: if_splits)
next
  case (Some p)
  with assms show ?thesis
    by (auto simp: add_router_definition_def router_def_text_def insert_at_length)
qed

text \<open>The two fixes together lengthen the text whenever one of them is due.\<close>

lemma router_fixes_grow:
  assumes due: "\<not> contains c ''APIRouter'' \<or> (\<not> has_router_def c \<and> last_import_end c \<noteq> None)"
    and s1: "step1 = (if \<not> contains c ''APIRouter'' then add_router_import c else (c, []))"
    and s2: "(if \<not> has_router_def c then add_router_definition step1 else step1) = (c2, f2)"
  shows "f2 \<noteq> [] \<and> length c < length c2"
proof (cases "contains c ''APIRouter''")
  case True
  with due have nd: "\<not> has_router_def c" and li: "last_import_end c \<noteq> None" by simp_all
  from True s1 have "step1 = (c, [])" by simp
  with s2 nd have "add_router_definition (c, []) = (c2, f2)" by simp
  from add_router_definition_grows[OF this] li show ?thesis by simp
next
  case False
  then have nd: "\<not> has_router_def c" using has_router_def_contains by blast
  obtain c1 f1 where a1: "add_router_import c = (c1, f1)" by fastforce
  with False s1 have st: "step1 = (c1, f1)" by simp
  from add_router_import_grows[OF a1]
  have f1: "f1 \<noteq> []" and l1: "length c \<le> length c1"
    and same: "length c1 \<le> length c \<longrightarrow> last_import_end c \<noteq> None" by simp_all
  from s2 nd st have a2: "add_router_definition (c1, f1) = (c2, f2)" by simp
  from add_router_definition_grows[OF a2] f1
  have f2: "f2 \<noteq> []" and l2: "length c1 \<le> length c2"
    and ins: "last_import_end c1 \<noteq> None \<longrightarrow> length c1 < length c2" by simp_all
  show ?thesis
  proof (cases "length c1 \<le> length c")
    case False
    with l2 f2 show ?thesis by simp
  next
    case True
    with l1 have le: "length c1 = length c" by simp
    from a1 have "c1 = c"
    proof (cases "last_import_end c")
      case None
      with a1 le show ?thesis by (auto simp: add_router_import_def)
    next
      case (Some p)
      show ?thesis
      proof (cases "contains c ''from fastapi import''")
        case True
        with a1 Some have "c1 = sub_fastapi_import c" by (auto simp: add_router_import_def)
        with le sub_fastapi_import_grows[of c] show ?thesis by auto
      next
        case False
        with a1 Some le show ?thesis by (auto simp: add_router_import_def insert_at_length)
      qed
    qed
    with same True have "last_import_end c1 \<noteq> None" by simp
    with ins le f2 show ?thesis by simp
  qed
qed

text \<open>
  C7 (as amended). \<open>fix_router_definition\<close> returns a text without \<open>@router.\<close> as it is.
  \<open>APIRouterFixer.fix_module_router\<close> does not look for route decorators. It leaves a
  module alone, with the message that there is nothing to fix, when the text holds
  \<open>APIRouter\<close> and a router definition. It rewrites the file of every module that can be
  read and written and is not blank when \<open>APIRouter\<close> does not occur in the text, or when
  the text has no router definition but an import line: the new text is longer than the
  old one, whether or not the module has a route decorator.
\<close>

theorem router_repair_ignores_decorators:
  "(\<not> contains content ''@router.'' \<longrightarrow> fix_router_definition content = content)
 \<and> (stat_error t m = None \<and> read_file t m = Inr content \<and> \<not> is_blank content
      \<and> contains content ''APIRouter'' \<and> has_router_def content \<longrightarrow>
      fix_module_router t m
        = (Inr \<lparr>rr_module = m, rr_status = None, had_router_import = Some True,
                had_router_definition = Some True, rr_fixed = Some False,
                rr_message = ''No router issues to fix''\<rparr>, t))
 \<and> (stat_error t m = None \<and> init_py t m = Some f \<and> read_error f = None \<and> write_error f = None
      \<and> \<not> is_blank (text_of f)
      \<and> (\<not> contains (text_of f) ''APIRouter''
           \<or> (\<not> has_router_def (text_of f) \<and> last_import_end (text_of f) \<noteq> None)) \<longrightarrow>
      (\<exists>r c'. fst (fix_module_router t m) = Inr r \<and> rr_fixed r = Some True
         \<and> read_file (snd (fix_module_router t m)) m = Inr c'
         \<and> length (text_of f) < length c'))"
proof (intro conjI impI)
  assume "\<not> contains content ''@router.''"
  then show "fix_router_definition content = content"
    by (simp add: fix_router_definition_def)
next
  assume a: "stat_error t m = None \<and> read_file t m = Inr content \<and> \<not> is_blank content
      \<and> contains content ''APIRouter'' \<and> has_router_def content"
  then have "init_py t m \<noteq> None" using read_file_exists by blast
  then obtain g where "init_py t m = Some g" by auto
  with a show "fix_module_router t m
        = (Inr \<lparr>rr_module = m, rr_status = None, had_router_import = Some True,
                had_router_definition = Some True, rr_fixed = Some False,
                rr_message = ''No router issues to fix''\<rparr>, t)"
    by (simp add: fix_module_router_def Let_def)
next
  assume a: "stat_error t m = None \<and> init_py t m = Some f \<and> read_error f = None \<and> write_error f = None
      \<and> \<not> is_blank (text_of f)
      \<and> (\<not> contains (text_of f) ''APIRouter''
           \<or> (\<not> has_router_def (text_of f) \<and> last_import_end (text_of f) \<noteq> None))"
  define c where "c = text_of f"
  define step1 where "step1 = (if \<not> contains c ''APIRouter'' then add_router_import c else (c, []))"
  obtain c2 f2 where s2: "(if \<not> has_router_def c then add_router_definition step1 else step1) = (c2, f2)"
    by fastforce
  from a have due: "\<not> contains c ''APIRouter'' \<or> (\<not> has_router_def c \<and> last_import_end c \<noteq> None)"
    by (simp add: c_def)
  from router_fixes_grow[OF due step1_def s2]
  have f2: "f2 \<noteq> []" and len: "length c < length c2" by simp_all
  from a have rd: "read_file t m = Inr c" by (simp add: read_file_def c_def)
  from a obtain t' where w: "write_file t m c2 = Inr t'"
    by (auto simp: write_file_def)
  from a have st: "stat_error t m = None" and ip: "init_py t m = Some f"
    and nb: "\<not> is_blank c" by (simp_all add: c_def)
  have "fix_module_router t m
        = (Inr \<lparr>rr_module = m, rr_status = None,
                had_router_import = Some (contains c ''APIRouter''),
                had_router_definition = Some (has_router_def c), rr_fixed = Some True,
                rr_message = join_comma f2\<rparr>, t')"
    unfolding fix_module_router_def Let_def
    by (simp add: st ip rd nb step1_def[symmetric] s2 f2 w split del: if_split cong: if_cong)
  moreover from write_then_read[OF rd w] have "read_file t' m = Inr c2" .
  ultimately show "\<exists>r c'. fst (fix_module_router t m) = Inr r \<and> rr_fixed r = Some True
         \<and> read_file (snd (fix_module_router t m)) m = Inr c'
         \<and> length (text_of f) < length c'"
    using len by (simp add: c_def)
qed

lemma router_samples:
  "\<not> contains plain_module ''@router.''
 \<and> \<not> contains plain_module ''APIRouter''
 \<and> \<not> is_blank plain_module
 \<and> \<not> is_blank routed_module
 \<and> contains routed_module ''APIRouter''
 \<and> has_router_def routed_module
 \<and> \<not> contains routed_module ''@router.''
 \<and> length plain_module = 10"
  by code_simp

lemma router_sample_files:
  "stat_error routes_tree ''utils'' = None
 \<and> stat_error routes_tree ''health'' = None
 \<and> init_py routes_tree ''utils'' = Some (plain_file plain_module)
 \<and> read_error (plain_file plain_module) = None
 \<and> write_error (plain_file plain_module) = None
 \<and> text_of (plain_file plain_module) = plain_module
 \<and> read_file routes_tree ''health'' = Inr routed_module"
  by (simp add: routes_tree_def plain_file_def read_file_def)

theorem router_repair_ignores_decorators_witness:
  "fix_router_definition plain_module = plain_module
 \<and> fix_module_router routes_tree ''health''
      = (Inr \<lparr>rr_module = ''health'', rr_status = None, had_router_import = Some True,
              had_router_definition = Some True, rr_fixed = Some False,
              rr_message = ''No router issues to fix''\<rparr>, routes_tree)
 \<and> (\<exists>r c'. fst (fix_module_router routes_tree ''utils'') = Inr r \<and> rr_fixed r = Some True
        \<and> read_file (snd (fix_module_router routes_tree ''utils'')) ''utils'' = Inr c'
        \<and> 10 < length c')"
proof -
  note s = router_samples
  note f = router_sample_files
  note th1 = router_repair_ignores_decorators[of plain_module routes_tree "''health''"
               "plain_file plain_module"]
  note th2 = router_repair_ignores_decorators[of routed_module routes_tree "''health''"
               "plain_file plain_module"]
  note th3 = router_repair_ignores_decorators[of plain_module routes_tree "''utils''"
               "plain_file plain_module"]
  from th1[THEN conjunct1] s
  have one: "fix_router_definition plain_module = plain_module" by simp
  from th2[THEN conjunct2, THEN conjunct1] s f
  have two: "fix_module_router routes_tree ''health''
      = (Inr \<lparr>rr_module = ''health'', rr_status = None, had_router_import = Some True,
              had_router_definition = Some True, rr_fixed = Some False,
              rr_message = ''No router issues to fix''\<rparr>, routes_tree)"
    by simp
  from th3[THEN conjunct2, THEN conjunct2] s f
  have three: "\<exists>r c'. fst (fix_module_router routes_tree ''utils'') = Inr r \<and> rr_fixed r = Some True
        \<and> read_file (snd (fix_module_router routes_tree ''utils'')) ''utils'' = Inr c'
        \<and> 10 < length c'"
    by simp
  from one two three show ?thesis by (intro conjI)
qed

text \<open>
  The claim as stated fails on \<open>fix_module_router\<close>: the module \<open>utils\<close> has no route
  decorator, and the repair adds an import and a router definition to its file.
\<close>

theorem router_added_without_decorators_counterexample:
  "read_file routes_tree ''utils'' = Inr (''import os'' @ [NL])
 \<and> \<not> contains (''import os'' @ [NL]) ''@router.''
 \<and> fst (fix_module_router routes_tree ''utils'')
      = Inr \<lparr>rr_module = ''utils'', rr_status = None, had_router_import = Some False,
             had_router_definition = Some False, rr_fixed = Some True,
             rr_message = ''Added APIRouter import, Added router definition''\<rparr>
 \<and> read_file (snd (fix_module_router routes_tree ''utils'')) ''utils''
      = Inr (''import os'' @ [NL, NL] @ ''from fastapi import APIRouter, HTTPException''
               @ [NL, NL, NL] @ ''# Create API router'' @ [NL] @ ''router = APIRouter()'' @ [NL, NL])"
  by code_simp

section \<open>The operation id scan\<close>














end
